theory Spec2Isabelle
  imports Main "HOL-Library.Word" "HOL-Library.AList"
begin

unbundle bit_operations_syntax

section \<open>Data model\<close>

text \<open>
  The task record is the \<^verbatim>\<open>interface Todo\<close> of \<^verbatim>\<open>todo-server\<close>: \<^verbatim>\<open>status\<close> and
  \<^verbatim>\<open>priority\<close> range over the string enumerations of the tool schemas, \<^verbatim>\<open>project\<close> and
  \<^verbatim>\<open>conversation\<close> are optional (\<open>None\<close> is a key that is absent or \<^verbatim>\<open>undefined\<close>; the
  two are indistinguishable to every operation below and to \<^verbatim>\<open>JSON.stringify\<close>).
  Timestamps are the strings \<^verbatim>\<open>new Date().toISOString()\<close> yields.
\<close>

datatype status = pending | in_progress | completed | cancelled

datatype priority = high | medium | low

record todo =
  id' :: string
  content :: string
  status :: status
  priority :: priority
  project :: "string option"
  conversation :: "string option"
  createdAt :: string
  updatedAt :: string

text \<open>\<^verbatim>\<open>Partial<Todo>\<close>: every key may be absent (\<open>None\<close>).\<close>

record partial_todo =
  p_id :: "string option"
  p_content :: "string option"
  p_status :: "status option"
  p_priority :: "priority option"
  p_project :: "string option"
  p_conversation :: "string option"
  p_createdAt :: "string option"
  p_updatedAt :: "string option"

text \<open>
  The object the \<^verbatim>\<open>createTask\<close> handler hands to the JavaScript \<^verbatim>\<open>createTodo\<close>:
  \<^verbatim>\<open>{content, status, priority, project, conversation}\<close>, where the schema makes
  \<^verbatim>\<open>content\<close> a string and has already put the defaults into \<^verbatim>\<open>status\<close> and \<^verbatim>\<open>priority\<close>.
\<close>

record todoData =
  d_content :: string
  d_status :: status
  d_priority :: priority
  d_project :: "string option"
  d_conversation :: "string option"

text \<open>\<^verbatim>\<open>interface TodoFilters\<close>, with the value types of the \<^verbatim>\<open>filterTasks\<close> schema.\<close>

record todoFilters =
  f_status :: "status option"
  f_priority :: "priority option"
  f_project :: "string option"
  f_conversation :: "string option"
  f_keyword :: "string option"

text \<open>
  A file of \<^verbatim>\<open>TODOS_DIR\<close> holds either text that \<^verbatim>\<open>JSON.parse\<close> rejects, or the JSON array
  of records a previous \<^verbatim>\<open>writeTodosFile\<close> serialised. The directory is the list of its
  entries, file name and content, in the order \<^verbatim>\<open>fs.readdir\<close> reports them; a path
  \<^verbatim>\<open>path.join(TODOS_DIR, file)\<close> is represented by \<^verbatim>\<open>file\<close>. The file system itself
  never fails in this model (no permission or disk errors).
\<close>

datatype shard_file = Corrupt | Json "todo list"

type_synonym todos_dir = "(string \<times> shard_file) list"

text \<open>
  \<^verbatim>\<open>Math.random() * 16 | 0\<close> is one of the integers 0..15: a 4-bit word. A random source
  gives the n-th such draw of one \<^verbatim>\<open>generateUUID\<close> call.
\<close>

type_synonym draws = "nat \<Rightarrow> 4 word"

text \<open>What \<^verbatim>\<open>deleteTodo\<close> returns when it finds the record.\<close>

datatype delete_result = Deleted string bool | Cancelled todo

section \<open>String helpers of the JavaScript runtime\<close>

text \<open>
  Strings are lists of 8-bit characters, one per character of ASCII text; on such text the
  helpers below compute what the JavaScript methods compute.
\<close>

definition endsWith :: "string \<Rightarrow> string \<Rightarrow> bool" where
  "endsWith s suf = (length suf \<le> length s \<and> drop (length s - length suf) s = suf)"

text \<open>\<^verbatim>\<open>s.includes(k)\<close>: \<open>k\<close> occurs in \<open>s\<close> at some position.\<close>

fun includes_str :: "string \<Rightarrow> string \<Rightarrow> bool" where
  "includes_str [] k = (k = [])"
| "includes_str (c # cs) k = (take (length k) (c # cs) = k \<or> includes_str cs k)"

text \<open>
  \<^verbatim>\<open>toLowerCase\<close> on the letters A..Z; every other character of the model's byte strings
  is left as it is.
\<close>

definition toLowerCase_char :: "char \<Rightarrow> char" where
  "toLowerCase_char c =
     (let n = (of_char c :: nat) in if 65 \<le> n \<and> n \<le> 90 then char_of (n + 32) else c)"

definition toLowerCase :: "string \<Rightarrow> string" where
  "toLowerCase s = map toLowerCase_char s"

text \<open>The character class \<^verbatim>\<open>[a-zA-Z0-9]\<close>.\<close>

definition alnum :: "char \<Rightarrow> bool" where
  "alnum c =
     (let n = (of_char c :: nat)
      in (97 \<le> n \<and> n \<le> 122) \<or> (65 \<le> n \<and> n \<le> 90) \<or> (48 \<le> n \<and> n \<le> 57))"

text \<open>Truthiness of an optional string: \<^verbatim>\<open>undefined\<close> and \<^verbatim>\<open>''\<close> are falsy.\<close>

definition truthy :: "string option \<Rightarrow> bool" where
  "truthy v = (case v of None \<Rightarrow> False | Some s \<Rightarrow> s \<noteq> [])"

text \<open>\<^verbatim>\<open>findIndex\<close>, with \<open>None\<close> for -1.\<close>

fun findIndex :: "('a \<Rightarrow> bool) \<Rightarrow> 'a list \<Rightarrow> nat option" where
  "findIndex P [] = None"
| "findIndex P (x # xs) =
     (if P x then Some 0 else (case findIndex P xs of None \<Rightarrow> None | Some i \<Rightarrow> Some (Suc i)))"

text \<open>\<^verbatim>\<open>todos.splice(index, 1)\<close>.\<close>

definition splice1 :: "nat \<Rightarrow> 'a list \<Rightarrow> 'a list" where
  "splice1 index xs = take index xs @ drop (Suc index) xs"

section \<open>TodoStore\<close>

definition DEFAULT_TODOS_FILE :: string where
  "DEFAULT_TODOS_FILE = ''default.json''"

definition getTodoFiles :: "todos_dir \<Rightarrow> string list" where
  "getTodoFiles s = filter (\<lambda>file. endsWith file ''.json'') (map fst s)"

text \<open>A missing file and a file that does not parse both read as \<^verbatim>\<open>[]\<close>.\<close>

definition readTodosFile :: "todos_dir \<Rightarrow> string \<Rightarrow> todo list" where
  "readTodosFile s filePath =
     (case map_of s filePath of
        None \<Rightarrow> []
      | Some Corrupt \<Rightarrow> []
      | Some (Json todos) \<Rightarrow> todos)"

text \<open>
  The calls \<^verbatim>\<open>writeTodosFile\<close> makes on the \<^verbatim>\<open>fs\<close> module, and their effect on the
  directory: \<^verbatim>\<open>fs.writeFile\<close> replaces the content of an existing entry or adds a new one;
  \<^verbatim>\<open>fs.rename\<close>, which the store never calls, moves an entry over another name. A new
  entry is listed last here; where \<^verbatim>\<open>fs.readdir\<close> lists it is up to the operating system,
  and no statement below depends on it.
\<close>

datatype fs_call = WriteFile string shard_file | Rename string string

fun fs_apply :: "fs_call \<Rightarrow> todos_dir \<Rightarrow> todos_dir" where
  "fs_apply (WriteFile p c) s = AList.update p c s"
| "fs_apply (Rename a b) s =
     (case map_of s a of
        None \<Rightarrow> s
      | Some c \<Rightarrow> AList.update b c (AList.delete a s))"

definition writeTodosFile_calls :: "string \<Rightarrow> todo list \<Rightarrow> fs_call list" where
  "writeTodosFile_calls filePath todos = [WriteFile filePath (Json todos)]"

definition writeTodosFile :: "todos_dir \<Rightarrow> string \<Rightarrow> todo list \<Rightarrow> todos_dir" where
  "writeTodosFile s filePath todos = fold fs_apply (writeTodosFile_calls filePath todos) s"



fun getAllTodos_loop :: "todos_dir \<Rightarrow> string list \<Rightarrow> todo list \<Rightarrow> todo list" where
  "getAllTodos_loop s [] allTodos = allTodos"
| "getAllTodos_loop s (file # files) allTodos =
     getAllTodos_loop s files (allTodos @ readTodosFile s file)"

definition getAllTodos :: "todos_dir \<Rightarrow> todo list" where
  "getAllTodos s = getAllTodos_loop s (getTodoFiles s) []"

fun getTodoById_loop :: "todos_dir \<Rightarrow> string list \<Rightarrow> string \<Rightarrow> todo option" where
  "getTodoById_loop s [] i = None"
| "getTodoById_loop s (file # files) i =
     (case find (\<lambda>todo. id' todo = i) (readTodosFile s file) of
        Some todo \<Rightarrow> Some todo
      | None \<Rightarrow> getTodoById_loop s files i)"

definition getTodoById :: "todos_dir \<Rightarrow> string \<Rightarrow> todo option" where
  "getTodoById s i = getTodoById_loop s (getTodoFiles s) i"

subsection \<open>generateUUID\<close>

definition toString16 :: "4 word \<Rightarrow> char" where
  "toString16 v = ''0123456789abcdef'' ! unat v"

text \<open>
  \<^verbatim>\<open>template.replace(/[xy]/g, f)\<close>: the callback runs once for each \<^verbatim>\<open>x\<close> or \<^verbatim>\<open>y\<close>, from
  left to right, and each run takes the next draw.
\<close>

fun replace_xy :: "string \<Rightarrow> draws \<Rightarrow> string" where
  "replace_xy [] rnd = []"
| "replace_xy (c # cs) rnd =
     (if c = CHR ''x'' \<or> c = CHR ''y'' then
        (let r = rnd 0;
             v = (if c = CHR ''x'' then r else (r AND 3) OR 8)
         in toString16 v # replace_xy cs (\<lambda>n. rnd (Suc n)))
      else c # replace_xy cs rnd)"

definition generateUUID :: "draws \<Rightarrow> string" where
  "generateUUID rnd = replace_xy ''xxxxxxxx-xxxx-4xxx-yxxx-xxxxxxxxxxxx'' rnd"

subsection \<open>createTodo\<close>

text \<open>\<^verbatim>\<open>project.replace(/[^a-zA-Z0-9]/g, '-')\<close>.\<close>

definition sanitizedProject :: "string \<Rightarrow> string" where
  "sanitizedProject p = map (\<lambda>c. if alnum c then c else CHR ''-'') p"

text \<open>The \<^verbatim>\<open>filePath\<close> that the first lines of \<^verbatim>\<open>createTodo\<close> compute.\<close>

definition createTodo_filePath :: "string option \<Rightarrow> string" where
  "createTodo_filePath p =
     (if truthy p then sanitizedProject (case p of Some v \<Rightarrow> v | None \<Rightarrow> []) @ ''.json''
      else DEFAULT_TODOS_FILE)"

text \<open>
  The JavaScript \<^verbatim>\<open>createTodo\<close>. \<open>now1\<close> and \<open>now2\<close> are the two clock readings for
  \<^verbatim>\<open>createdAt\<close> and \<^verbatim>\<open>updatedAt\<close>.
\<close>

definition createTodo ::
  "todos_dir \<Rightarrow> draws \<Rightarrow> string \<Rightarrow> string \<Rightarrow> todoData \<Rightarrow> todo \<times> todos_dir" where
  "createTodo s rnd now1 now2 d =
     (let filePath = createTodo_filePath (d_project d);
          todos = readTodosFile s filePath;
          newTodo = \<lparr> id' = generateUUID rnd,
                      content = d_content d,
                      status = d_status d,
                      priority = d_priority d,
                      project = d_project d,
                      conversation = d_conversation d,
                      createdAt = now1,
                      updatedAt = now2 \<rparr>
      in (newTodo, writeTodosFile s filePath (todos @ [newTodo])))"

text \<open>
  The TypeScript \<^verbatim>\<open>createTodo\<close>: \<^verbatim>\<open>||\<close> puts the default where the value is absent or
  the empty string; \<^verbatim>\<open>project\<close> and \<^verbatim>\<open>conversation\<close> are copied only when truthy.
\<close>

definition createTodo_ts ::
  "todos_dir \<Rightarrow> draws \<Rightarrow> string \<Rightarrow> string \<Rightarrow> partial_todo \<Rightarrow> todo \<times> todos_dir" where
  "createTodo_ts s rnd now1 now2 d =
     (let filePath = createTodo_filePath (p_project d);
          todos = readTodosFile s filePath;
          newTodo = \<lparr> id' = generateUUID rnd,
                      content = (case p_content d of None \<Rightarrow> [] | Some c \<Rightarrow> c),
                      status = (case p_status d of None \<Rightarrow> pending | Some v \<Rightarrow> v),
                      priority = (case p_priority d of None \<Rightarrow> medium | Some v \<Rightarrow> v),
                      project = (if truthy (p_project d) then p_project d else None),
                      conversation = (if truthy (p_conversation d) then p_conversation d else None),
                      createdAt = now1,
                      updatedAt = now2 \<rparr>
      in (newTodo, writeTodosFile s filePath (todos @ [newTodo])))"



subsection \<open>updateTodo\<close>

text \<open>\<^verbatim>\<open>{...todo, ...updates, updatedAt: now}\<close>.\<close>

definition spread_updates :: "todo \<Rightarrow> partial_todo \<Rightarrow> string \<Rightarrow> todo" where
  "spread_updates t u now =
     \<lparr> id' = (case p_id u of None \<Rightarrow> id' t | Some v \<Rightarrow> v),
       content = (case p_content u of None \<Rightarrow> content t | Some v \<Rightarrow> v),
       status = (case p_status u of None \<Rightarrow> status t | Some v \<Rightarrow> v),
       priority = (case p_priority u of None \<Rightarrow> priority t | Some v \<Rightarrow> v),
       project = (case p_project u of None \<Rightarrow> project t | Some v \<Rightarrow> Some v),
       conversation = (case p_conversation u of None \<Rightarrow> conversation t | Some v \<Rightarrow> Some v),
       createdAt = (case p_createdAt u of None \<Rightarrow> createdAt t | Some v \<Rightarrow> v),
       updatedAt = now \<rparr>"

fun updateTodo_loop ::
  "todos_dir \<Rightarrow> string list \<Rightarrow> string \<Rightarrow> partial_todo \<Rightarrow> string \<Rightarrow> todo option \<times> todos_dir" where
  "updateTodo_loop s [] i updates now = (None, s)"
| "updateTodo_loop s (file # files) i updates now =
     (let todos = readTodosFile s file in
      case findIndex (\<lambda>todo. id' todo = i) todos of
        Some index \<Rightarrow>
          (let updatedTodo = spread_updates (todos ! index) updates now
           in (Some updatedTodo, writeTodosFile s file (todos[index := updatedTodo])))
      | None \<Rightarrow> updateTodo_loop s files i updates now)"

definition updateTodo ::
  "todos_dir \<Rightarrow> string \<Rightarrow> partial_todo \<Rightarrow> string \<Rightarrow> todo option \<times> todos_dir" where
  "updateTodo s i updates now = updateTodo_loop s (getTodoFiles s) i updates now"

subsection \<open>deleteTodo\<close>

fun deleteTodo_loop ::
  "todos_dir \<Rightarrow> string list \<Rightarrow> string \<Rightarrow> bool \<Rightarrow> string \<Rightarrow> delete_result option \<times> todos_dir" where
  "deleteTodo_loop s [] i hardDelete now = (None, s)"
| "deleteTodo_loop s (file # files) i hardDelete now =
     (let todos = readTodosFile s file in
      case findIndex (\<lambda>todo. id' todo = i) todos of
        Some index \<Rightarrow>
          (if hardDelete then
             (Some (Deleted i True), writeTodosFile s file (splice1 index todos))
           else
             (let todos' = todos[index := (todos ! index)\<lparr> status := cancelled, updatedAt := now \<rparr>]
              in (Some (Cancelled (todos' ! index)), writeTodosFile s file todos')))
      | None \<Rightarrow> deleteTodo_loop s files i hardDelete now)"

definition deleteTodo ::
  "todos_dir \<Rightarrow> string \<Rightarrow> bool \<Rightarrow> string \<Rightarrow> delete_result option \<times> todos_dir" where
  "deleteTodo s i hardDelete now = deleteTodo_loop s (getTodoFiles s) i hardDelete now"

subsection \<open>filterTodos\<close>

definition filterTodos_pred :: "todoFilters \<Rightarrow> todo \<Rightarrow> bool" where
  "filterTodos_pred filters t =
     (if f_status filters \<noteq> None \<and> Some (status t) \<noteq> f_status filters then False
      else if f_priority filters \<noteq> None \<and> Some (priority t) \<noteq> f_priority filters then False
      else if truthy (f_project filters) \<and> project t \<noteq> f_project filters then False
      else if truthy (f_conversation filters) \<and> conversation t \<noteq> f_conversation filters then False
      else if truthy (f_keyword filters) \<and>
              \<not> includes_str (toLowerCase (content t))
                   (toLowerCase (case f_keyword filters of Some k \<Rightarrow> k | None \<Rightarrow> [])) then False
      else True)"

definition filterTodos :: "todos_dir \<Rightarrow> todoFilters \<Rightarrow> todo list" where
  "filterTodos s filters = filter (filterTodos_pred filters) (getAllTodos s)"

section \<open>Tool handlers\<close>

text \<open>
  \<^verbatim>\<open>createTask\<close>: the schema defaults \<^verbatim>\<open>status\<close> to \<^verbatim>\<open>'pending'\<close> and \<^verbatim>\<open>priority\<close> to
  \<^verbatim>\<open>'medium'\<close> before the handler builds \<^verbatim>\<open>todoData\<close>.
\<close>

definition createTask ::
  "todos_dir \<Rightarrow> draws \<Rightarrow> string \<Rightarrow> string \<Rightarrow>
   string \<Rightarrow> status option \<Rightarrow> priority option \<Rightarrow> string option \<Rightarrow> string option \<Rightarrow>
   todo \<times> todos_dir" where
  "createTask s rnd now1 now2 c st pr pj cv =
     createTodo s rnd now1 now2
       \<lparr> d_content = c,
         d_status = (case st of None \<Rightarrow> pending | Some v \<Rightarrow> v),
         d_priority = (case pr of None \<Rightarrow> medium | Some v \<Rightarrow> v),
         d_project = pj,
         d_conversation = cv \<rparr>"

text \<open>
  The same handler in the TypeScript file, where \<^verbatim>\<open>createTodo\<close> takes a \<^verbatim>\<open>Partial<Todo>\<close>.
\<close>

definition createTask_ts ::
  "todos_dir \<Rightarrow> draws \<Rightarrow> string \<Rightarrow> string \<Rightarrow>
   string \<Rightarrow> status option \<Rightarrow> priority option \<Rightarrow> string option \<Rightarrow> string option \<Rightarrow>
   todo \<times> todos_dir" where
  "createTask_ts s rnd now1 now2 c st pr pj cv =
     createTodo_ts s rnd now1 now2
       \<lparr> p_id = None,
         p_content = Some c,
         p_status = Some (case st of None \<Rightarrow> pending | Some v \<Rightarrow> v),
         p_priority = Some (case pr of None \<Rightarrow> medium | Some v \<Rightarrow> v),
         p_project = pj,
         p_conversation = cv,
         p_createdAt = None,
         p_updatedAt = None \<rparr>"

text \<open>\<^verbatim>\<open>updateTask\<close>: only the arguments that are not \<^verbatim>\<open>undefined\<close> become keys of \<^verbatim>\<open>updates\<close>.\<close>

definition updateTask ::
  "todos_dir \<Rightarrow> string \<Rightarrow> string \<Rightarrow>
   string option \<Rightarrow> status option \<Rightarrow> priority option \<Rightarrow> string option \<Rightarrow> string option \<Rightarrow>
   todo option \<times> todos_dir" where
  "updateTask s now i c st pr pj cv =
     updateTodo s i
       \<lparr> p_id = None, p_content = c, p_status = st, p_priority = pr, p_project = pj,
         p_conversation = cv, p_createdAt = None, p_updatedAt = None \<rparr> now"

section \<open>Notions used in the statements and proofs\<close>

text \<open>
  Where the scan over the shard files first meets the identifier: the file and the index
  that \<^verbatim>\<open>getTodoById\<close>, \<^verbatim>\<open>updateTodo\<close> and \<^verbatim>\<open>deleteTodo\<close> all stop at. \<open>R\<close> reads a file.
\<close>

fun locate_in :: "(string \<Rightarrow> todo list) \<Rightarrow> string list \<Rightarrow> string \<Rightarrow> (string \<times> nat) option" where
  "locate_in R [] i = None"
| "locate_in R (file # files) i =
     (case findIndex (\<lambda>todo. id' todo = i) (R file) of
        Some index \<Rightarrow> Some (file, index)
      | None \<Rightarrow> locate_in R files i)"


text \<open>
  What reaches the identifier of the 31 draws of one \<^verbatim>\<open>generateUUID\<close> call: each of the 30
  draws for an \<^verbatim>\<open>x\<close> whole, and the two low bits of the draw for the \<^verbatim>\<open>y\<close>.
\<close>

definition draws_used :: "draws \<Rightarrow> 4 word list" where
  "draws_used rnd = map (\<lambda>n. if n = 15 then rnd n AND 3 else rnd n) [0..<31]"

text \<open>
  The shard resolver as the specification words it: the default shard when the project is
  absent or empty, otherwise the project with every character outside \<^verbatim>\<open>[A-Za-z0-9]\<close>
  replaced by a hyphen. The shard's file is the shard id followed by \<^verbatim>\<open>.json\<close>.
\<close>

definition shardFor :: "string option \<Rightarrow> string" where
  "shardFor p =
     (case p of
        None \<Rightarrow> ''default''
      | Some v \<Rightarrow>
          if v = [] then ''default''
          else map (\<lambda>c. if c \<in> set ''abcdefghijklmnopqrstuvwxyzABCDEFGHIJKLMNOPQRSTUVWXYZ0123456789''
                         then c else CHR ''-'') v)"

text \<open>
  The filter criteria as the specification words them: a criterion that is supplied must
  hold, by equality, or for the keyword by containment in the content after lowercasing
  both; a criterion that is absent asks nothing.
\<close>

definition criteria_as_specified :: "todoFilters \<Rightarrow> todo \<Rightarrow> bool" where
  "criteria_as_specified filters t =
     ((case f_status filters of None \<Rightarrow> True | Some v \<Rightarrow> status t = v) \<and>
      (case f_priority filters of None \<Rightarrow> True | Some v \<Rightarrow> priority t = v) \<and>
      (case f_project filters of None \<Rightarrow> True | Some v \<Rightarrow> project t = Some v) \<and>
      (case f_conversation filters of None \<Rightarrow> True | Some v \<Rightarrow> conversation t = Some v) \<and>
      (case f_keyword filters of None \<Rightarrow> True
       | Some k \<Rightarrow> includes_str (toLowerCase (content t)) (toLowerCase k)))"

text \<open>The same, except that a project or conversation criterion that is the empty string asks nothing.\<close>

definition criteria_nonempty :: "todoFilters \<Rightarrow> todo \<Rightarrow> bool" where
  "criteria_nonempty filters t =
     ((case f_status filters of None \<Rightarrow> True | Some v \<Rightarrow> status t = v) \<and>
      (case f_priority filters of None \<Rightarrow> True | Some v \<Rightarrow> priority t = v) \<and>
      (case f_project filters of None \<Rightarrow> True
       | Some v \<Rightarrow> v = [] \<or> project t = Some v) \<and>
      (case f_conversation filters of None \<Rightarrow> True
       | Some v \<Rightarrow> v = [] \<or> conversation t = Some v) \<and>
      (case f_keyword filters of None \<Rightarrow> True
       | Some k \<Rightarrow> includes_str (toLowerCase (content t)) (toLowerCase k)))"

text \<open>A sequence of \<^verbatim>\<open>createTask\<close> calls, each with its own draws, clock readings and arguments.\<close>

record create_call =
  c_rnd :: draws
  c_now1 :: string
  c_now2 :: string
  c_content :: string
  c_status :: "status option"
  c_priority :: "priority option"
  c_project :: "string option"
  c_conversation :: "string option"

fun createTask_seq :: "todos_dir \<Rightarrow> create_call list \<Rightarrow> todo list \<times> todos_dir" where
  "createTask_seq s [] = ([], s)"
| "createTask_seq s (c # cs) =
     (let (t, s1) = createTask s (c_rnd c) (c_now1 c) (c_now2 c) (c_content c) (c_status c)
                      (c_priority c) (c_project c) (c_conversation c);
          (ts, s2) = createTask_seq s1 cs
      in (t # ts, s2))"


text \<open>A small directory for the concrete instances.\<close>

definition example_fix_bug :: todo where
  "example_fix_bug =
     \<lparr> id' = ''11111111-1111-4111-8111-111111111111'', content = ''fix bug'', status = pending,
       priority = high, project = None, conversation = None,
       createdAt = ''2024-01-01T00:00:00.000Z'', updatedAt = ''2024-01-01T00:00:00.000Z'' \<rparr>"

definition example_write_docs :: todo where
  "example_write_docs =
     \<lparr> id' = ''22222222-2222-4222-9222-222222222222'', content = ''write docs'', status = pending,
       priority = low, project = Some ''work'', conversation = None,
       createdAt = ''2024-01-02T00:00:00.000Z'', updatedAt = ''2024-01-02T00:00:00.000Z'' \<rparr>"

definition example_dir :: todos_dir where
  "example_dir =
     [(''default.json'', Json [example_fix_bug]), (''work.json'', Json [example_write_docs])]"



section \<open>Identifiers\<close>

lemma nat_lt16: "(n::nat) < 16 \<Longrightarrow> n \<in> {0,1,2,3,4,5,6,7,8,9,10,11,12,13,14,15}"
  by (simp add: insert_iff) arith

lemma w4_cases: "(v::4 word) \<in> {0,1,2,3,4,5,6,7,8,9,10,11,12,13,14,15}"
proof -
  have "unat v < 16" using unsigned_less [of v] by simp
  then have "unat v \<in> {0,1,2,3,4,5,6,7,8,9,10,11,12,13,14,15}" by (rule nat_lt16)
  then have "(word_of_nat (unat v) :: 4 word) \<in> word_of_nat ` {0,1,2,3,4,5,6,7,8,9,10,11,12,13,14,15}"
    by (rule imageI)
  then show ?thesis by simp
qed

lemma toString16_hex: "toString16 v \<in> set ''0123456789abcdef''"
  using w4_cases [of v] unfolding toString16_def by auto

lemma toString16_variant:
  "toString16 ((r AND 3) OR 8) \<in> {CHR ''8'', CHR ''9'', CHR ''a'', CHR ''b''}"
  using w4_cases [of r] unfolding toString16_def by auto

text \<open>The 31 draws of one call, in place.\<close>

lemma generateUUID_unfold:
  "generateUUID rnd =
     [toString16 (rnd 0), toString16 (rnd 1), toString16 (rnd 2), toString16 (rnd 3),
      toString16 (rnd 4), toString16 (rnd 5), toString16 (rnd 6), toString16 (rnd 7),
      CHR ''-'',
      toString16 (rnd 8), toString16 (rnd 9), toString16 (rnd 10), toString16 (rnd 11),
      CHR ''-'',
      CHR ''4'', toString16 (rnd 12), toString16 (rnd 13), toString16 (rnd 14),
      CHR ''-'',
      toString16 ((rnd 15 AND 3) OR 8), toString16 (rnd 16), toString16 (rnd 17),
      toString16 (rnd 18),
      CHR ''-'',
      toString16 (rnd 19), toString16 (rnd 20), toString16 (rnd 21), toString16 (rnd 22),
      toString16 (rnd 23), toString16 (rnd 24), toString16 (rnd 25), toString16 (rnd 26),
      toString16 (rnd 27), toString16 (rnd 28), toString16 (rnd 29), toString16 (rnd 30)]"
  unfolding generateUUID_def by (simp add: Let_def eval_nat_numeral)

lemma all_lt_list:
  "(\<forall>i<length xs. P i (xs ! i)) = list_all (\<lambda>(i, x). P i x) (enumerate 0 xs)"
  by (auto simp: list_all_length nth_enumerate_eq)

lemma generateUUID_hex:
  "\<forall>i<36. i \<notin> {8, 13, 14, 18, 19, 23} \<longrightarrow>
     generateUUID rnd ! i \<in> set ''0123456789abcdef''"
proof -
  let ?u = "generateUUID rnd"
  let ?P = "\<lambda>i c. i \<notin> {8, 13, 14, 18, 19, 23::nat} \<longrightarrow> c \<in> set ''0123456789abcdef''"
  have len: "length ?u = 36" by (simp add: generateUUID_unfold)
  have "list_all (\<lambda>(i, x). ?P i x) (enumerate 0 ?u)"
    unfolding generateUUID_unfold using toString16_hex by simp
  then have "\<forall>i<length ?u. ?P i (?u ! i)"
    by (simp only: all_lt_list [where P = ?P and xs = ?u])
  then show ?thesis unfolding len .
qed

lemma generateUUID_fixed:
  "length (generateUUID rnd) = 36 \<and>
   generateUUID rnd ! 8 = CHR ''-'' \<and> generateUUID rnd ! 13 = CHR ''-'' \<and>
   generateUUID rnd ! 18 = CHR ''-'' \<and> generateUUID rnd ! 23 = CHR ''-'' \<and>
   generateUUID rnd ! 14 = CHR ''4''"
  by (simp add: generateUUID_unfold)

lemma generateUUID_variant:
  "generateUUID rnd ! 19 \<in> {CHR ''8'', CHR ''9'', CHR ''a'', CHR ''b''}"
  using toString16_variant [of "rnd 15"] by (simp add: generateUUID_unfold)

text \<open>Two calls give the same identifier exactly when the draws that reach it agree.\<close>

lemma toString16_inj: "toString16 v = toString16 w \<longleftrightarrow> v = w"
proof -
  have "unat v < 16" using unsigned_less [of v] by simp
  then have v: "unat v < length ''0123456789abcdef''" by simp
  have "unat w < 16" using unsigned_less [of w] by simp
  then have w: "unat w < length ''0123456789abcdef''" by simp
  have d: "distinct ''0123456789abcdef''" by simp
  have "toString16 v = toString16 w \<longleftrightarrow> unat v = unat w"
    unfolding toString16_def by (rule nth_eq_iff_index_eq [OF d v w])
  then show ?thesis by (simp add: word_unat_eq_iff)
qed

lemma and3_cases: "(r::4 word) AND 3 \<in> {0, 1, 2, 3}"
  using w4_cases [of r] by auto

lemma variant_inj: "((r::4 word) AND 3) OR 8 = (r' AND 3) OR 8 \<longleftrightarrow> r AND 3 = r' AND 3"
  using and3_cases [of r] and3_cases [of r'] by auto

lemma draws_used_unfold:
  "draws_used rnd =
     [rnd 0, rnd 1, rnd 2, rnd 3, rnd 4, rnd 5, rnd 6, rnd 7, rnd 8, rnd 9, rnd 10, rnd 11,
      rnd 12, rnd 13, rnd 14, rnd 15 AND 3, rnd 16, rnd 17, rnd 18, rnd 19, rnd 20, rnd 21,
      rnd 22, rnd 23, rnd 24, rnd 25, rnd 26, rnd 27, rnd 28, rnd 29, rnd 30]"
  by (simp add: draws_used_def upt_rec eval_nat_numeral)

lemma generateUUID_eq_iff:
  "generateUUID rnd = generateUUID rnd' \<longleftrightarrow> draws_used rnd = draws_used rnd'"
  by (simp add: generateUUID_unfold draws_used_unfold toString16_inj variant_inj)

lemma createTodo_id: "id' (fst (createTodo s rnd now1 now2 d)) = generateUUID rnd"
  by (simp add: createTodo_def Let_def)

lemma createTodo_ts_id: "id' (fst (createTodo_ts s rnd now1 now2 p)) = generateUUID rnd"
  by (simp add: createTodo_ts_def Let_def)

text \<open>
  C10. The identifier of every record that \<^verbatim>\<open>createTodo\<close> builds, in the JavaScript and in
  the TypeScript file, is the result of \<^verbatim>\<open>generateUUID\<close>, and whatever the random draws
  are, that result has 36 characters: a hyphen at the positions 8, 13, 18 and 23, the digit
  4 at position 14, one of 8, 9, a, b at position 19, and a lowercase hexadecimal digit at
  every other position.
\<close>

theorem generateUUID_v4_format:
  "id' (fst (createTodo s rnd now1 now2 d)) = generateUUID rnd \<and>
   id' (fst (createTodo_ts s rnd now1 now2 p)) = generateUUID rnd \<and>
   length (generateUUID rnd) = 36 \<and>
   generateUUID rnd ! 8 = CHR ''-'' \<and> generateUUID rnd ! 13 = CHR ''-'' \<and>
   generateUUID rnd ! 18 = CHR ''-'' \<and> generateUUID rnd ! 23 = CHR ''-'' \<and>
   generateUUID rnd ! 14 = CHR ''4'' \<and>
   generateUUID rnd ! 19 \<in> {CHR ''8'', CHR ''9'', CHR ''a'', CHR ''b''} \<and>
   (\<forall>i<36. i \<notin> {8, 13, 14, 18, 19, 23} \<longrightarrow>
      generateUUID rnd ! i \<in> set ''0123456789abcdef'')"
  using generateUUID_fixed [of rnd] generateUUID_variant [of rnd] generateUUID_hex [of rnd]
    createTodo_id [of s rnd now1 now2 d] createTodo_ts_id [of s rnd now1 now2 p]
  by blast

theorem generateUUID_v4_format_witness:
  "generateUUID (\<lambda>n. 7) = ''77777777-7777-4777-b777-777777777777'' \<and>
   (35::nat) < 36 \<and> (35::nat) \<notin> {8, 13, 14, 18, 19, 23} \<and>
   generateUUID (\<lambda>n. 7) ! 35 \<in> set ''0123456789abcdef''"
proof -
  have e: "generateUUID (\<lambda>n. 7) = ''77777777-7777-4777-b777-777777777777''"
    by (simp add: generateUUID_unfold toString16_def)
  have "(35::nat) < 36 \<and> (35::nat) \<notin> {8, 13, 14, 18, 19, 23}" by simp
  with generateUUID_v4_format [of "[]" "\<lambda>n. 7" "[]" "[]"] e show ?thesis by blast
qed

section \<open>Files, scans and writes\<close>

lemmas example_defs = example_dir_def example_fix_bug_def example_write_docs_def

lemmas scan_defs = getTodoById_def getAllTodos_def getTodoFiles_def endsWith_def readTodosFile_def

lemma writeTodosFile_update: "writeTodosFile s f ts = AList.update f (Json ts) s"
  by (simp add: writeTodosFile_def writeTodosFile_calls_def)

lemma readTodosFile_write:
  "readTodosFile (writeTodosFile s f ts) = (readTodosFile s)(f := ts)"
  by (rule ext) (simp add: readTodosFile_def writeTodosFile_update AList.update_conv')

lemma readTodosFile_in_dir: "readTodosFile s f \<noteq> [] \<Longrightarrow> f \<in> fst ` set s"
  by (auto simp: readTodosFile_def map_of_eq_None_iff split: option.splits dest: map_of_SomeD
      intro: rev_image_eqI)

lemma getTodoFiles_write:
  "getTodoFiles (writeTodosFile s f ts) =
     (if f \<in> fst ` set s \<or> \<not> endsWith f ''.json'' then getTodoFiles s else getTodoFiles s @ [f])"
  by (simp add: getTodoFiles_def writeTodosFile_update AList.update_keys)

lemma getAllTodos_loop_concat:
  "getAllTodos_loop s files acc = acc @ concat (map (readTodosFile s) files)"
  by (induction files arbitrary: acc) simp_all

lemma getAllTodos_concat: "getAllTodos s = concat (map (readTodosFile s) (getTodoFiles s))"
  by (simp add: getAllTodos_def getAllTodos_loop_concat)

lemma findIndex_None: "findIndex P xs = None \<longleftrightarrow> (\<forall>x\<in>set xs. \<not> P x)"
  by (induction xs) (auto split: option.splits)

lemma findIndex_Some:
  "findIndex P xs = Some k \<Longrightarrow> k < length xs \<and> P (xs ! k) \<and> (\<forall>j<k. \<not> P (xs ! j))"
proof (induction xs arbitrary: k)
  case Nil
  then show ?case by simp
next
  case (Cons x xs)
  show ?case
  proof (cases "P x")
    case True
    with Cons.prems show ?thesis by simp
  next
    case False
    with Cons.prems obtain k' where k': "findIndex P xs = Some k'" "k = Suc k'"
      by (auto split: option.splits)
    from Cons.IH [OF k'(1)] False k'(2) show ?thesis
      by (auto simp: less_Suc_eq_0_disj)
  qed
qed

lemma find_findIndex:
  "find P xs = (case findIndex P xs of None \<Rightarrow> None | Some k \<Rightarrow> Some (xs ! k))"
  by (induction xs) (auto split: option.splits)

lemma getTodoById_loop_locate:
  "getTodoById_loop s files i =
     (case locate_in (readTodosFile s) files i of
        None \<Rightarrow> None
      | Some (f, k) \<Rightarrow> Some (readTodosFile s f ! k))"
  by (induction files) (auto simp: find_findIndex split: option.splits)

lemma updateTodo_loop_locate:
  "updateTodo_loop s files i u now =
     (case locate_in (readTodosFile s) files i of
        None \<Rightarrow> (None, s)
      | Some (f, k) \<Rightarrow>
          (Some (spread_updates (readTodosFile s f ! k) u now),
           writeTodosFile s f
             ((readTodosFile s f)[k := spread_updates (readTodosFile s f ! k) u now])))"
  by (induction files) (auto simp: Let_def split: option.splits)

lemma deleteTodo_loop_locate:
  "deleteTodo_loop s files i h now =
     (case locate_in (readTodosFile s) files i of
        None \<Rightarrow> (None, s)
      | Some (f, k) \<Rightarrow>
          (if h then (Some (Deleted i True), writeTodosFile s f (splice1 k (readTodosFile s f)))
           else (Some (Cancelled ((readTodosFile s f ! k)\<lparr> status := cancelled, updatedAt := now \<rparr>)),
                 writeTodosFile s f
                   ((readTodosFile s f)[k := (readTodosFile s f ! k)\<lparr> status := cancelled, updatedAt := now \<rparr>]))))"
proof (induction files)
  case Nil
  then show ?case by simp
next
  case (Cons f files)
  show ?case
  proof (cases "findIndex (\<lambda>todo. id' todo = i) (readTodosFile s f)")
    case None
    with Cons show ?thesis by simp
  next
    case (Some k)
    then have "k < length (readTodosFile s f)" by (simp add: findIndex_Some)
    with Some show ?thesis by (simp add: Let_def)
  qed
qed

lemma locate_in_Some:
  "locate_in R files i = Some (f, k) \<Longrightarrow>
     f \<in> set files \<and> findIndex (\<lambda>todo. id' todo = i) (R f) = Some k"
  by (induction files) (auto split: option.splits)

lemma findIndex_Some_ex: "findIndex P xs = Some k \<Longrightarrow> \<exists>x\<in>set xs. P x"
  using findIndex_None [of P xs] by auto

lemma locate_in_None:
  "locate_in R files i = None \<longleftrightarrow> (\<forall>f\<in>set files. \<forall>t\<in>set (R f). id' t \<noteq> i)"
  by (induction files) (auto simp: findIndex_None split: option.splits dest: findIndex_Some_ex)

lemma locate_in_upd_Some:
  "locate_in R files i = Some (f, k) \<Longrightarrow> findIndex (\<lambda>todo. id' todo = i) ts = Some k' \<Longrightarrow>
     locate_in (R(f := ts)) files i = Some (f, k')"
proof (induction files)
  case Nil
  then show ?case by simp
next
  case (Cons g files)
  show ?case
  proof (cases "findIndex (\<lambda>todo. id' todo = i) (R g)")
    case None
    with Cons.prems have rest: "locate_in R files i = Some (f, k)" by simp
    then have "findIndex (\<lambda>todo. id' todo = i) (R f) = Some k" by (simp add: locate_in_Some)
    with None have "g \<noteq> f" by auto
    with None Cons.IH [OF rest Cons.prems(2)] show ?thesis by simp
  next
    case (Some j)
    with Cons.prems have "g = f" by simp
    with Cons.prems(2) show ?thesis by simp
  qed
qed

lemma locate_in_upd_None:
  "findIndex (\<lambda>todo. id' todo = i) ts = None \<Longrightarrow>
   \<forall>g\<in>set files. g \<noteq> f \<longrightarrow> (\<forall>t\<in>set (R g). id' t \<noteq> i) \<Longrightarrow>
     locate_in (R(f := ts)) files i = None"
  by (simp add: locate_in_None findIndex_None)

lemma findIndex_SomeI:
  "k < length xs \<Longrightarrow> P (xs ! k) \<Longrightarrow> \<forall>j<k. \<not> P (xs ! j) \<Longrightarrow> findIndex P xs = Some k"
proof (induction xs arbitrary: k)
  case Nil
  then show ?case by simp
next
  case (Cons x xs)
  show ?case
  proof (cases k)
    case 0
    with Cons.prems show ?thesis by simp
  next
    case (Suc k')
    with Cons.prems have "\<not> P x" by auto
    moreover from Suc Cons.prems have "findIndex P xs = Some k'"
      by (intro Cons.IH) auto
    ultimately show ?thesis using Suc by simp
  qed
qed

lemma findIndex_list_update:
  assumes "findIndex P xs = Some k" and "P y"
  shows "findIndex P (xs[k := y]) = Some k"
proof -
  from findIndex_Some [OF assms(1)]
  have k: "k < length xs" and before: "\<forall>j<k. \<not> P (xs ! j)" by auto
  show ?thesis
    by (rule findIndex_SomeI) (use k before assms(2) in auto)
qed

lemma getTodoById_locate:
  "getTodoById s i = Some t \<longleftrightarrow>
     (\<exists>f k. locate_in (readTodosFile s) (getTodoFiles s) i = Some (f, k) \<and> t = readTodosFile s f ! k)"
  by (auto simp: getTodoById_def getTodoById_loop_locate split: option.splits)

lemma getTodoById_None_locate:
  "getTodoById s i = None \<longleftrightarrow> locate_in (readTodosFile s) (getTodoFiles s) i = None"
  by (auto simp: getTodoById_def getTodoById_loop_locate split: option.splits)

text \<open>Rewriting the shard where the record was found, keeping a match in it.\<close>

lemma getTodoById_after_write:
  assumes loc: "locate_in (readTodosFile s) (getTodoFiles s) i = Some (f, k)"
    and ts: "findIndex (\<lambda>todo. id' todo = i) ts = Some k'"
  shows "getTodoById (writeTodosFile s f ts) i = Some (ts ! k')"
proof -
  from locate_in_Some [OF loc]
  have "findIndex (\<lambda>todo. id' todo = i) (readTodosFile s f) = Some k" by simp
  then have "readTodosFile s f \<noteq> []" by auto
  then have "f \<in> fst ` set s" by (rule readTodosFile_in_dir)
  then have files: "getTodoFiles (writeTodosFile s f ts) = getTodoFiles s"
    by (simp add: getTodoFiles_write)
  from locate_in_upd_Some [OF loc ts]
  show ?thesis
    by (simp add: getTodoById_def getTodoById_loop_locate files readTodosFile_write)
qed

lemma getTodoById_id: "getTodoById s i = Some t \<Longrightarrow> id' t = i"
  by (auto simp: getTodoById_locate dest!: locate_in_Some findIndex_Some)

lemma updateTodo_found:
  assumes "getTodoById s i = Some t" and "p_id u = None"
  shows "fst (updateTodo s i u now) = Some (spread_updates t u now) \<and>
         getTodoById (snd (updateTodo s i u now)) i = Some (spread_updates t u now)"
proof -
  from assms(1) obtain f k where
    loc: "locate_in (readTodosFile s) (getTodoFiles s) i = Some (f, k)"
    and t: "t = readTodosFile s f ! k"
    by (auto simp: getTodoById_locate)
  let ?t' = "spread_updates t u now"
  let ?ts = "(readTodosFile s f)[k := ?t']"
  from locate_in_Some [OF loc]
  have fi: "findIndex (\<lambda>todo. id' todo = i) (readTodosFile s f) = Some k" by simp
  from findIndex_Some [OF fi] have k: "k < length (readTodosFile s f)" by simp
  from assms have "id' ?t' = i" by (simp add: spread_updates_def getTodoById_id)
  with fi have "findIndex (\<lambda>todo. id' todo = i) ?ts = Some k"
    by (intro findIndex_list_update) auto
  from getTodoById_after_write [OF loc this] k
  have "getTodoById (writeTodosFile s f ?ts) i = Some ?t'" by simp
  with loc t show ?thesis
    by (simp add: updateTodo_def updateTodo_loop_locate)
qed


section \<open>Updating\<close>

text \<open>
  C3. When \<^verbatim>\<open>getTodoById\<close> finds a record under the identifier, the \<^verbatim>\<open>updateTask\<close> handler
  returns that record with exactly the supplied fields overwritten (a supplied empty string
  overwrites too), \<^verbatim>\<open>updatedAt\<close> set to the current time, and \<^verbatim>\<open>id\<close>, \<^verbatim>\<open>createdAt\<close> and every
  field that was not supplied as before; the same record is what \<^verbatim>\<open>getTodoById\<close> reads
  back from the directory afterwards.
\<close>

theorem updateTask_merge:
  "getTodoById s i = Some t \<Longrightarrow>
     fst (updateTask s now i c st pr pj cv) =
       Some \<lparr> id' = id' t,
              content = (case c of None \<Rightarrow> content t | Some v \<Rightarrow> v),
              status = (case st of None \<Rightarrow> status t | Some v \<Rightarrow> v),
              priority = (case pr of None \<Rightarrow> priority t | Some v \<Rightarrow> v),
              project = (case pj of None \<Rightarrow> project t | Some v \<Rightarrow> Some v),
              conversation = (case cv of None \<Rightarrow> conversation t | Some v \<Rightarrow> Some v),
              createdAt = createdAt t,
              updatedAt = now \<rparr> \<and>
     getTodoById (snd (updateTask s now i c st pr pj cv)) i = fst (updateTask s now i c st pr pj cv)"
  using updateTodo_found [of s i t
      "\<lparr> p_id = None, p_content = c, p_status = st, p_priority = pr, p_project = pj,
         p_conversation = cv, p_createdAt = None, p_updatedAt = None \<rparr>" now]
  by (simp add: updateTask_def spread_updates_def)

theorem updateTask_merge_witness:
  "getTodoById example_dir ''22222222-2222-4222-9222-222222222222'' = Some example_write_docs \<and>
   fst (updateTask example_dir ''2024-03-01T00:00:00.000Z'' ''22222222-2222-4222-9222-222222222222''
          (Some '''') (Some completed) None None None) =
     Some (example_write_docs \<lparr> content := '''', status := completed,
                                 updatedAt := ''2024-03-01T00:00:00.000Z'' \<rparr>) \<and>
   getTodoById
     (snd (updateTask example_dir ''2024-03-01T00:00:00.000Z'' ''22222222-2222-4222-9222-222222222222''
          (Some '''') (Some completed) None None None))
     ''22222222-2222-4222-9222-222222222222'' =
     Some (example_write_docs \<lparr> content := '''', status := completed,
                                 updatedAt := ''2024-03-01T00:00:00.000Z'' \<rparr>)"
proof -
  have h: "getTodoById example_dir ''22222222-2222-4222-9222-222222222222'' = Some example_write_docs"
    by (simp add: example_defs getTodoById_def getTodoFiles_def endsWith_def readTodosFile_def)
  from updateTask_merge [OF h, of "''2024-03-01T00:00:00.000Z''" "Some ''''" "Some completed" None None None]
  show ?thesis using h by (simp add: example_write_docs_def)
qed

section \<open>Deleting\<close>

lemma distinct_concat_disjoint:
  "distinct (concat (map h fs)) \<Longrightarrow> f \<in> set fs \<Longrightarrow> g \<in> set fs \<Longrightarrow> f \<noteq> g \<Longrightarrow>
     set (h f) \<inter> set (h g) = {}"
  by (induction fs) auto

lemma map_concat_map: "map m (concat (map h fs)) = concat (map (\<lambda>f. map m (h f)) fs)"
  by (induction fs) simp_all

lemma distinct_concat_each:
  "distinct (concat (map h fs)) \<Longrightarrow> f \<in> set fs \<Longrightarrow> distinct (h f)"
  by (induction fs) auto

lemma splice1_no_match:
  assumes d: "distinct (map m xs)" and k: "k < length xs"
  shows "\<forall>x\<in>set (splice1 k xs). m x \<noteq> m (xs ! k)"
proof -
  have xs: "xs = take k xs @ xs ! k # drop (Suc k) xs"
    using k by (simp add: id_take_nth_drop)
  have "distinct (map m (take k xs @ xs ! k # drop (Suc k) xs))"
    using d xs by simp
  then have "m (xs ! k) \<notin> m ` set (take k xs)" "m (xs ! k) \<notin> m ` set (drop (Suc k) xs)"
    by auto
  then show ?thesis
    unfolding splice1_def by (metis UnE imageI set_append)
qed

lemma deleteTodo_hard_gone:
  assumes loc: "locate_in (readTodosFile s) (getTodoFiles s) i = Some (f, k)"
    and uniq: "distinct (map id' (getAllTodos s))"
  shows "getTodoById (writeTodosFile s f (splice1 k (readTodosFile s f))) i = None"
proof -
  let ?R = "readTodosFile s" and ?fs = "getTodoFiles s"
  let ?h = "\<lambda>f. map id' (?R f)"
  from locate_in_Some [OF loc]
  have f: "f \<in> set ?fs" and fi: "findIndex (\<lambda>todo. id' todo = i) (?R f) = Some k" by auto
  from findIndex_Some [OF fi]
  have k: "k < length (?R f)" and ik: "id' (?R f ! k) = i" by auto
  from uniq have d: "distinct (concat (map ?h ?fs))"
    by (simp add: getAllTodos_concat map_concat_map)
  from distinct_concat_each [OF d f] have "distinct (map id' (?R f))" .
  from splice1_no_match [OF this k] ik
  have here: "findIndex (\<lambda>todo. id' todo = i) (splice1 k (?R f)) = None"
    by (simp add: findIndex_None)
  have i_in: "i \<in> set (?h f)" using k ik by (metis length_map nth_map nth_mem)
  have others: "\<forall>g\<in>set ?fs. g \<noteq> f \<longrightarrow> (\<forall>t\<in>set (?R g). id' t \<noteq> i)"
  proof (intro ballI impI)
    fix g t assume g: "g \<in> set ?fs" "g \<noteq> f" and t: "t \<in> set (?R g)"
    from distinct_concat_disjoint [OF d f g(1)] g(2)
    have "set (?h f) \<inter> set (?h g) = {}" by auto
    with i_in t show "id' t \<noteq> i" by auto
  qed
  from k have "?R f \<noteq> []" by auto
  then have "f \<in> fst ` set s" by (rule readTodosFile_in_dir)
  then have files: "getTodoFiles (writeTodosFile s f (splice1 k (?R f))) = ?fs"
    by (simp add: getTodoFiles_write)
  from locate_in_upd_None [OF here others]
  show ?thesis
    by (simp add: getTodoById_None_locate files readTodosFile_write)
qed

lemma deleteTodo_hard_found:
  assumes "getTodoById s i = Some t"
  shows "fst (deleteTodo s i True now) = Some (Deleted i True) \<and>
         (\<exists>file k. k < length (readTodosFile s file) \<and> readTodosFile s file ! k = t \<and>
            readTodosFile (snd (deleteTodo s i True now)) file =
              take k (readTodosFile s file) @ drop (Suc k) (readTodosFile s file) \<and>
            (\<forall>g. g \<noteq> file \<longrightarrow>
               readTodosFile (snd (deleteTodo s i True now)) g = readTodosFile s g)) \<and>
         (distinct (map id' (getAllTodos s)) \<longrightarrow>
            getTodoById (snd (deleteTodo s i True now)) i = None)"
proof -
  from assms obtain f k where
    loc: "locate_in (readTodosFile s) (getTodoFiles s) i = Some (f, k)"
    and t: "t = readTodosFile s f ! k"
    by (auto simp: getTodoById_locate)
  from locate_in_Some [OF loc]
  have fi: "findIndex (\<lambda>todo. id' todo = i) (readTodosFile s f) = Some k" by simp
  from findIndex_Some [OF fi] have k: "k < length (readTodosFile s f)" by simp
  have res: "deleteTodo s i True now =
      (Some (Deleted i True), writeTodosFile s f (splice1 k (readTodosFile s f)))"
    using loc by (simp add: deleteTodo_def deleteTodo_loop_locate)
  have "k < length (readTodosFile s f) \<and> readTodosFile s f ! k = t \<and>
      readTodosFile (snd (deleteTodo s i True now)) f =
        take k (readTodosFile s f) @ drop (Suc k) (readTodosFile s f) \<and>
      (\<forall>g. g \<noteq> f \<longrightarrow> readTodosFile (snd (deleteTodo s i True now)) g = readTodosFile s g)"
    using k t by (simp add: res readTodosFile_write splice1_def)
  then have ex: "\<exists>file k. k < length (readTodosFile s file) \<and> readTodosFile s file ! k = t \<and>
      readTodosFile (snd (deleteTodo s i True now)) file =
        take k (readTodosFile s file) @ drop (Suc k) (readTodosFile s file) \<and>
      (\<forall>g. g \<noteq> file \<longrightarrow> readTodosFile (snd (deleteTodo s i True now)) g = readTodosFile s g)"
    by blast
  from deleteTodo_hard_gone [OF loc] res ex show ?thesis by simp
qed

lemma deleteTodo_soft_found:
  assumes "getTodoById s i = Some t"
  shows "fst (deleteTodo s i False now) =
           Some (Cancelled (t\<lparr> status := cancelled, updatedAt := now \<rparr>)) \<and>
         getTodoById (snd (deleteTodo s i False now)) i =
           Some (t\<lparr> status := cancelled, updatedAt := now \<rparr>)"
proof -
  from assms obtain f k where
    loc: "locate_in (readTodosFile s) (getTodoFiles s) i = Some (f, k)"
    and t: "t = readTodosFile s f ! k"
    by (auto simp: getTodoById_locate)
  let ?t' = "t\<lparr> status := cancelled, updatedAt := now \<rparr>"
  let ?ts = "(readTodosFile s f)[k := ?t']"
  from locate_in_Some [OF loc]
  have fi: "findIndex (\<lambda>todo. id' todo = i) (readTodosFile s f) = Some k" by simp
  from findIndex_Some [OF fi] have k: "k < length (readTodosFile s f)" by simp
  from assms have "id' ?t' = i" by (simp add: getTodoById_id)
  with fi have "findIndex (\<lambda>todo. id' todo = i) ?ts = Some k"
    by (intro findIndex_list_update) auto
  from getTodoById_after_write [OF loc this] k
  have "getTodoById (writeTodosFile s f ?ts) i = Some ?t'" by simp
  with loc t show ?thesis
    by (simp add: deleteTodo_def deleteTodo_loop_locate)
qed

lemma deleteTodo_not_found:
  "getTodoById s i = None \<Longrightarrow> deleteTodo s i h now = (None, s)"
  by (simp add: getTodoById_None_locate deleteTodo_def deleteTodo_loop_locate)

lemma deleteTodo_soft_in_place:
  assumes "getTodoById s i = Some t"
  shows "\<exists>file k. k < length (readTodosFile s file) \<and> readTodosFile s file ! k = t \<and>
            readTodosFile (snd (deleteTodo s i False now)) file =
              (readTodosFile s file)[k := t\<lparr> status := cancelled, updatedAt := now \<rparr>] \<and>
            (\<forall>g. g \<noteq> file \<longrightarrow>
               readTodosFile (snd (deleteTodo s i False now)) g = readTodosFile s g)"
proof -
  from assms obtain f k where
    loc: "locate_in (readTodosFile s) (getTodoFiles s) i = Some (f, k)"
    and t: "t = readTodosFile s f ! k"
    by (auto simp: getTodoById_locate)
  from locate_in_Some [OF loc]
  have fi: "findIndex (\<lambda>todo. id' todo = i) (readTodosFile s f) = Some k" by simp
  from findIndex_Some [OF fi] have k: "k < length (readTodosFile s f)" by simp
  have "k < length (readTodosFile s f) \<and> readTodosFile s f ! k = t \<and>
      readTodosFile (snd (deleteTodo s i False now)) f =
        (readTodosFile s f)[k := t\<lparr> status := cancelled, updatedAt := now \<rparr>] \<and>
      (\<forall>g. g \<noteq> f \<longrightarrow> readTodosFile (snd (deleteTodo s i False now)) g = readTodosFile s g)"
    using k t loc by (simp add: deleteTodo_def deleteTodo_loop_locate readTodosFile_write)
  then show ?thesis by blast
qed

lemma concat_le1_others_empty:
  "length (concat (map h fs)) \<le> 1 \<Longrightarrow> f \<in> set fs \<Longrightarrow> h f \<noteq> [] \<Longrightarrow> g \<in> set fs \<Longrightarrow>
     g \<noteq> f \<Longrightarrow> h g = []"
proof (induction fs)
  case Nil
  then show ?case by simp
next
  case (Cons a fs)
  have len: "length (h a) + length (concat (map h fs)) \<le> 1" using Cons.prems(1) by simp
  show ?case
  proof (cases "a = f")
    case True
    with Cons.prems have "0 < length (h a)" by simp
    with len have "length (concat (map h fs)) = 0" by arith
    then have "\<forall>x\<in>set fs. h x = []" by simp
    with Cons.prems True show ?thesis by auto
  next
    case False
    with Cons.prems have f: "f \<in> set fs" by simp
    then have "length (h f) \<le> length (concat (map h fs))"
      by (induction fs) auto
    moreover from Cons.prems have "0 < length (h f)" by simp
    ultimately have "length (h a) = 0" using len by arith
    show ?thesis
    proof (cases "g = a")
      case True
      with \<open>length (h a) = 0\<close> show ?thesis by simp
    next
      case False
      with Cons.prems have "g \<in> set fs" by simp
      moreover from len have "length (concat (map h fs)) \<le> 1" by arith
      ultimately show ?thesis using Cons.IH f Cons.prems by blast
    qed
  qed
qed

lemma concat_le1_each:
  "length (concat (map h fs)) \<le> 1 \<Longrightarrow> f \<in> set fs \<Longrightarrow> length (h f) \<le> 1"
  by (induction fs) auto

lemma splice1_single_match:
  assumes one: "length (filter P xs) \<le> 1" and k: "k < length xs" and m: "P (xs ! k)"
  shows "\<forall>x\<in>set (splice1 k xs). \<not> P x"
proof -
  have "xs = take k xs @ xs ! k # drop (Suc k) xs"
    using k by (simp add: id_take_nth_drop)
  then have "filter P xs = filter P (take k xs) @ xs ! k # filter P (drop (Suc k) xs)"
    using m by (metis filter.simps(2) filter_append)
  with one have "filter P (take k xs) = [] \<and> filter P (drop (Suc k) xs) = []"
    by simp
  then show ?thesis
    by (auto simp: splice1_def filter_empty_conv)
qed

lemma filter_concat_map: "filter P (concat (map h fs)) = concat (map (\<lambda>f. filter P (h f)) fs)"
  by (induction fs) simp_all

lemma deleteTodo_hard_gone_single:
  assumes loc: "locate_in (readTodosFile s) (getTodoFiles s) i = Some (f, k)"
    and one: "length (filter (\<lambda>t. id' t = i) (getAllTodos s)) = 1"
  shows "getTodoById (writeTodosFile s f (splice1 k (readTodosFile s f))) i = None"
proof -
  let ?R = "readTodosFile s" and ?fs = "getTodoFiles s"
  let ?P = "\<lambda>t. id' t = i"
  let ?h = "\<lambda>f. filter ?P (?R f)"
  from locate_in_Some [OF loc]
  have f: "f \<in> set ?fs" and fi: "findIndex ?P (?R f) = Some k" by auto
  from findIndex_Some [OF fi]
  have k: "k < length (?R f)" and ik: "?P (?R f ! k)" by auto
  from one have le: "length (concat (map ?h ?fs)) \<le> 1"
    by (simp add: getAllTodos_concat filter_concat_map)
  have ne: "?h f \<noteq> []" using k ik by (auto simp: filter_empty_conv)
  from concat_le1_each [OF le f] have "length (filter ?P (?R f)) \<le> 1" .
  from splice1_single_match [OF this k ik]
  have here: "findIndex ?P (splice1 k (?R f)) = None"
    by (simp add: findIndex_None)
  have others: "\<forall>g\<in>set ?fs. g \<noteq> f \<longrightarrow> (\<forall>t\<in>set (?R g). id' t \<noteq> i)"
  proof (intro ballI impI)
    fix g t assume g: "g \<in> set ?fs" "g \<noteq> f" and t: "t \<in> set (?R g)"
    from concat_le1_others_empty [OF le f ne g] have "filter ?P (?R g) = []" .
    with t show "id' t \<noteq> i" by (auto simp: filter_empty_conv)
  qed
  from k have "?R f \<noteq> []" by auto
  then have "f \<in> fst ` set s" by (rule readTodosFile_in_dir)
  then have files: "getTodoFiles (writeTodosFile s f (splice1 k (?R f))) = ?fs"
    by (simp add: getTodoFiles_write)
  from locate_in_upd_None [OF here others]
  show ?thesis
    by (simp add: getTodoById_None_locate files readTodosFile_write)
qed

lemma deleteTodo_hard_then_get:
  assumes "getTodoById s i = Some t"
    and "length (filter (\<lambda>t. id' t = i) (getAllTodos s)) = 1"
  shows "getTodoById (snd (deleteTodo s i True now)) i = None"
proof -
  from assms(1) obtain f k where
    loc: "locate_in (readTodosFile s) (getTodoFiles s) i = Some (f, k)"
    by (auto simp: getTodoById_locate)
  have res: "deleteTodo s i True now =
      (Some (Deleted i True), writeTodosFile s f (splice1 k (readTodosFile s f)))"
    using loc by (simp add: deleteTodo_def deleteTodo_loop_locate)
  from deleteTodo_hard_gone_single [OF loc assms(2)] res show ?thesis by simp
qed

text \<open>
  A shard with two records under one identifier: the hard delete takes out the first, and
  \<^verbatim>\<open>getTodoById\<close> then finds the second.
\<close>

theorem deleteTodo_duplicate_id_counterexample:
  "deleteTodo
     [(''default.json'',
       Json [\<lparr> id' = ''77777777-7777-4777-b777-777777777777'', content = ''first'',
                status = pending, priority = medium, project = None, conversation = None,
                createdAt = ''2024-01-01T00:00:00.000Z'',
                updatedAt = ''2024-01-01T00:00:00.000Z'' \<rparr>,
             \<lparr> id' = ''77777777-7777-4777-b777-777777777777'', content = ''second'',
                status = pending, priority = medium, project = None, conversation = None,
                createdAt = ''2024-01-02T00:00:00.000Z'',
                updatedAt = ''2024-01-02T00:00:00.000Z'' \<rparr>])]
     ''77777777-7777-4777-b777-777777777777'' True ''2024-03-01T00:00:00.000Z'' =
     (Some (Deleted ''77777777-7777-4777-b777-777777777777'' True),
      [(''default.json'',
        Json [\<lparr> id' = ''77777777-7777-4777-b777-777777777777'', content = ''second'',
                 status = pending, priority = medium, project = None, conversation = None,
                 createdAt = ''2024-01-02T00:00:00.000Z'',
                 updatedAt = ''2024-01-02T00:00:00.000Z'' \<rparr>])]) \<and>
   getTodoById
     [(''default.json'',
        Json [\<lparr> id' = ''77777777-7777-4777-b777-777777777777'', content = ''second'',
                 status = pending, priority = medium, project = None, conversation = None,
                 createdAt = ''2024-01-02T00:00:00.000Z'',
                 updatedAt = ''2024-01-02T00:00:00.000Z'' \<rparr>])]
     ''77777777-7777-4777-b777-777777777777'' =
     Some \<lparr> id' = ''77777777-7777-4777-b777-777777777777'', content = ''second'',
            status = pending, priority = medium, project = None, conversation = None,
            createdAt = ''2024-01-02T00:00:00.000Z'',
            updatedAt = ''2024-01-02T00:00:00.000Z'' \<rparr>"
  by (simp add: deleteTodo_def scan_defs splice1_def writeTodosFile_update)

text \<open>
  C4, as the code has it. When \<^verbatim>\<open>getTodoById\<close> finds a record under the identifier: a hard
  delete returns \<^verbatim>\<open>{id, deleted: true}\<close> and takes the record out of the sequence of the
  shard it was found in, leaving every other shard as it was, and when no other record of
  the store has that identifier \<^verbatim>\<open>getTodoById\<close> then finds nothing; a soft delete returns
  the record with status \<^verbatim>\<open>cancelled\<close> and \<^verbatim>\<open>updatedAt\<close> refreshed, puts it at the place of
  the old one in its shard, and \<^verbatim>\<open>getTodoById\<close> then reads back exactly that record. When
  no record has the identifier, \<^verbatim>\<open>deleteTodo\<close> returns \<^verbatim>\<open>null\<close> and writes nothing.
\<close>

theorem deleteTodo_hard_soft:
  "(getTodoById s i = Some t \<longrightarrow>
      fst (deleteTodo s i True now) = Some (Deleted i True) \<and>
      (\<exists>file k. k < length (readTodosFile s file) \<and> readTodosFile s file ! k = t \<and>
         readTodosFile (snd (deleteTodo s i True now)) file =
           take k (readTodosFile s file) @ drop (Suc k) (readTodosFile s file) \<and>
         (\<forall>g. g \<noteq> file \<longrightarrow>
            readTodosFile (snd (deleteTodo s i True now)) g = readTodosFile s g)) \<and>
      (length (filter (\<lambda>t. id' t = i) (getAllTodos s)) = 1 \<longrightarrow>
         getTodoById (snd (deleteTodo s i True now)) i = None) \<and>
      fst (deleteTodo s i False now) =
        Some (Cancelled (t\<lparr> status := cancelled, updatedAt := now \<rparr>)) \<and>
      (\<exists>file k. k < length (readTodosFile s file) \<and> readTodosFile s file ! k = t \<and>
         readTodosFile (snd (deleteTodo s i False now)) file =
           (readTodosFile s file)[k := t\<lparr> status := cancelled, updatedAt := now \<rparr>] \<and>
         (\<forall>g. g \<noteq> file \<longrightarrow>
            readTodosFile (snd (deleteTodo s i False now)) g = readTodosFile s g)) \<and>
      getTodoById (snd (deleteTodo s i False now)) i =
        Some (t\<lparr> status := cancelled, updatedAt := now \<rparr>)) \<and>
   (getTodoById s i = None \<longrightarrow> deleteTodo s i h now = (None, s))"
  using deleteTodo_hard_found [of s i t now] deleteTodo_hard_then_get [of s i t now]
    deleteTodo_soft_found [of s i t now] deleteTodo_soft_in_place [of s i t now]
    deleteTodo_not_found [of s i h now]
  by blast

theorem deleteTodo_hard_soft_witness:
  "getTodoById example_dir ''22222222-2222-4222-9222-222222222222'' = Some example_write_docs \<and>
   length (filter (\<lambda>t. id' t = ''22222222-2222-4222-9222-222222222222'')
             (getAllTodos example_dir)) = 1 \<and>
   fst (deleteTodo example_dir ''22222222-2222-4222-9222-222222222222'' True
          ''2024-03-01T00:00:00.000Z'') =
     Some (Deleted ''22222222-2222-4222-9222-222222222222'' True) \<and>
   getTodoById
     (snd (deleteTodo example_dir ''22222222-2222-4222-9222-222222222222'' True
             ''2024-03-01T00:00:00.000Z''))
     ''22222222-2222-4222-9222-222222222222'' = None \<and>
   fst (deleteTodo example_dir ''22222222-2222-4222-9222-222222222222'' False
          ''2024-03-01T00:00:00.000Z'') =
     Some (Cancelled (example_write_docs
             \<lparr> status := cancelled, updatedAt := ''2024-03-01T00:00:00.000Z'' \<rparr>)) \<and>
   getTodoById
     (snd (deleteTodo example_dir ''22222222-2222-4222-9222-222222222222'' False
             ''2024-03-01T00:00:00.000Z''))
     ''22222222-2222-4222-9222-222222222222'' =
     Some (example_write_docs
             \<lparr> status := cancelled, updatedAt := ''2024-03-01T00:00:00.000Z'' \<rparr>) \<and>
   getTodoById example_dir ''no-such-id'' = None \<and>
   deleteTodo example_dir ''no-such-id'' True ''2024-03-01T00:00:00.000Z'' = (None, example_dir)"
proof -
  have found:
    "getTodoById example_dir ''22222222-2222-4222-9222-222222222222'' = Some example_write_docs"
    by (simp add: example_defs scan_defs)
  have uniq: "length (filter (\<lambda>t. id' t = ''22222222-2222-4222-9222-222222222222'')
             (getAllTodos example_dir)) = 1"
    by (simp add: example_defs scan_defs)
  have missing: "getTodoById example_dir ''no-such-id'' = None"
    by (simp add: example_defs scan_defs)
  from deleteTodo_hard_soft
         [of example_dir "''22222222-2222-4222-9222-222222222222''" example_write_docs
             "''2024-03-01T00:00:00.000Z''"]
       deleteTodo_hard_soft
         [of example_dir "''no-such-id''" example_write_docs "''2024-03-01T00:00:00.000Z''" True]
       found uniq missing
  show ?thesis by simp
qed

section \<open>Creating\<close>

lemma endsWith_append: "endsWith (x @ suf) suf"
  by (simp add: endsWith_def)

lemma createTodo_filePath_json: "endsWith (createTodo_filePath p) ''.json''"
proof -
  have "endsWith (''default'' @ ''.json'') ''.json''" by (rule endsWith_append)
  then show ?thesis
    by (simp add: createTodo_filePath_def DEFAULT_TODOS_FILE_def endsWith_append)
qed

lemma createTodo_eq:
  "createTodo s rnd now1 now2 d =
     (fst (createTodo s rnd now1 now2 d),
      writeTodosFile s (createTodo_filePath (d_project d))
        (readTodosFile s (createTodo_filePath (d_project d)) @ [fst (createTodo s rnd now1 now2 d)]))"
  by (simp add: createTodo_def Let_def)

lemma createTodo_ts_eq:
  "createTodo_ts s rnd now1 now2 d =
     (fst (createTodo_ts s rnd now1 now2 d),
      writeTodosFile s (createTodo_filePath (p_project d))
        (readTodosFile s (createTodo_filePath (p_project d)) @ [fst (createTodo_ts s rnd now1 now2 d)]))"
  by (simp add: createTodo_ts_def Let_def)

lemma in_getTodoFiles: "f \<in> set (getTodoFiles s) \<longleftrightarrow> f \<in> fst ` set s \<and> endsWith f ''.json''"
  by (auto simp: getTodoFiles_def)

lemma in_getAllTodos:
  "t \<in> set (getAllTodos s) \<longleftrightarrow> (\<exists>f\<in>set (getTodoFiles s). t \<in> set (readTodosFile s f))"
  by (auto simp: getAllTodos_concat)

lemma locate_in_at:
  "f \<in> set fs \<Longrightarrow> \<forall>g\<in>set fs. g \<noteq> f \<longrightarrow> (\<forall>t\<in>set (R g). id' t \<noteq> i) \<Longrightarrow>
   findIndex (\<lambda>todo. id' todo = i) (R f) = Some k \<Longrightarrow> locate_in R fs i = Some (f, k)"
proof (induction fs)
  case Nil
  then show ?case by simp
next
  case (Cons g fs)
  show ?case
  proof (cases "g = f")
    case True
    with Cons.prems show ?thesis by simp
  next
    case False
    with Cons.prems have "findIndex (\<lambda>todo. id' todo = i) (R g) = None"
      by (simp add: findIndex_None)
    moreover from False Cons.prems have "locate_in R fs i = Some (f, k)"
      by (intro Cons.IH) auto
    ultimately show ?thesis by simp
  qed
qed

lemma findIndex_append_new:
  "\<forall>x\<in>set xs. \<not> P x \<Longrightarrow> P y \<Longrightarrow> findIndex P (xs @ [y]) = Some (length xs)"
  by (rule findIndex_SomeI) (auto simp: nth_append)

text \<open>Appending a record with a new identifier to a shard whose name ends in .json.\<close>

lemma getTodoById_after_append:
  assumes fresh: "id' t \<notin> id' ` set (getAllTodos s)" and json: "endsWith f ''.json''"
  shows "getTodoById (writeTodosFile s f (readTodosFile s f @ [t])) (id' t) = Some t"
proof -
  let ?R = "readTodosFile s" and ?s' = "writeTodosFile s f (readTodosFile s f @ [t])"
  have nomatch: "\<forall>g\<in>set (getTodoFiles s). \<forall>x\<in>set (?R g). id' x \<noteq> id' t"
  proof (intro ballI)
    fix g x assume "g \<in> set (getTodoFiles s)" "x \<in> set (?R g)"
    then have "x \<in> set (getAllTodos s)" by (auto simp: in_getAllTodos)
    with fresh show "id' x \<noteq> id' t" by (metis imageI)
  qed
  have here: "\<forall>x\<in>set (?R f). id' x \<noteq> id' t"
  proof (cases "f \<in> fst ` set s")
    case True
    with json nomatch show ?thesis by (simp add: in_getTodoFiles)
  next
    case False
    then have "?R f = []" using readTodosFile_in_dir [of s f] by blast
    then show ?thesis by simp
  qed
  have fin: "f \<in> set (getTodoFiles ?s')"
    using json by (auto simp: getTodoFiles_write in_getTodoFiles)
  have others: "\<forall>g\<in>set (getTodoFiles ?s'). g \<noteq> f \<longrightarrow>
      (\<forall>x\<in>set ((?R(f := ?R f @ [t])) g). id' x \<noteq> id' t)"
    using nomatch by (auto simp: getTodoFiles_write split: if_splits)
  have fi: "findIndex (\<lambda>todo. id' todo = id' t) ((?R(f := ?R f @ [t])) f) = Some (length (?R f))"
    using here by (simp add: findIndex_append_new)
  have "locate_in (?R(f := ?R f @ [t])) (getTodoFiles ?s') (id' t) = Some (f, length (?R f))"
    by (rule locate_in_at [OF fin others fi])
  then show ?thesis
    by (simp add: getTodoById_def getTodoById_loop_locate readTodosFile_write)
qed


lemma createTask_roundtrip:
  "generateUUID rnd \<notin> id' ` set (getAllTodos s) \<Longrightarrow>
     getTodoById (snd (createTask s rnd now1 now2 c st pr pj cv))
       (id' (fst (createTask s rnd now1 now2 c st pr pj cv))) =
       Some (fst (createTask s rnd now1 now2 c st pr pj cv)) \<and>
     content (fst (createTask s rnd now1 now2 c st pr pj cv)) = c \<and>
     status (fst (createTask s rnd now1 now2 c st pr pj cv)) =
       (case st of None \<Rightarrow> pending | Some v \<Rightarrow> v) \<and>
     priority (fst (createTask s rnd now1 now2 c st pr pj cv)) =
       (case pr of None \<Rightarrow> medium | Some v \<Rightarrow> v) \<and>
     project (fst (createTask s rnd now1 now2 c st pr pj cv)) = pj \<and>
     conversation (fst (createTask s rnd now1 now2 c st pr pj cv)) = cv"
proof -
  assume fresh: "generateUUID rnd \<notin> id' ` set (getAllTodos s)"
  let ?d = "\<lparr> d_content = c,
         d_status = (case st of None \<Rightarrow> pending | Some v \<Rightarrow> v),
         d_priority = (case pr of None \<Rightarrow> medium | Some v \<Rightarrow> v),
         d_project = pj,
         d_conversation = cv \<rparr>"
  let ?t = "fst (createTodo s rnd now1 now2 ?d)"
  have id: "id' ?t = generateUUID rnd" by (rule createTodo_id)
  with fresh have "id' ?t \<notin> id' ` set (getAllTodos s)" by simp
  from getTodoById_after_append [OF this createTodo_filePath_json]
  have "getTodoById (snd (createTodo s rnd now1 now2 ?d)) (id' ?t) = Some ?t"
    by (subst createTodo_eq) simp
  moreover have "content ?t = c \<and> status ?t = d_status ?d \<and> priority ?t = d_priority ?d \<and>
      project ?t = pj \<and> conversation ?t = cv"
    by (simp add: createTodo_def Let_def)
  ultimately show ?thesis by (simp add: createTask_def)
qed


lemma createTask_ts_roundtrip:
  assumes fresh: "generateUUID rnd \<notin> id' ` set (getAllTodos s)"
  shows "getTodoById (snd (createTask_ts s rnd now1 now2 c st pr pj cv))
       (id' (fst (createTask_ts s rnd now1 now2 c st pr pj cv))) =
       Some (fst (createTask_ts s rnd now1 now2 c st pr pj cv)) \<and>
     content (fst (createTask_ts s rnd now1 now2 c st pr pj cv)) = c \<and>
     status (fst (createTask_ts s rnd now1 now2 c st pr pj cv)) =
       (case st of None \<Rightarrow> pending | Some v \<Rightarrow> v) \<and>
     priority (fst (createTask_ts s rnd now1 now2 c st pr pj cv)) =
       (case pr of None \<Rightarrow> medium | Some v \<Rightarrow> v) \<and>
     project (fst (createTask_ts s rnd now1 now2 c st pr pj cv)) =
       (if truthy pj then pj else None) \<and>
     conversation (fst (createTask_ts s rnd now1 now2 c st pr pj cv)) =
       (if truthy cv then cv else None)"
proof -
  let ?d = "\<lparr> p_id = None,
         p_content = Some c,
         p_status = Some (case st of None \<Rightarrow> pending | Some v \<Rightarrow> v),
         p_priority = Some (case pr of None \<Rightarrow> medium | Some v \<Rightarrow> v),
         p_project = pj,
         p_conversation = cv,
         p_createdAt = None,
         p_updatedAt = None \<rparr>"
  let ?t = "fst (createTodo_ts s rnd now1 now2 ?d)"
  have id: "id' ?t = generateUUID rnd" by (rule createTodo_ts_id)
  with fresh have "id' ?t \<notin> id' ` set (getAllTodos s)" by simp
  from getTodoById_after_append [OF this createTodo_filePath_json]
  have "getTodoById (snd (createTodo_ts s rnd now1 now2 ?d)) (id' ?t) = Some ?t"
    by (subst createTodo_ts_eq) simp
  moreover have "content ?t = c \<and> status ?t = (case st of None \<Rightarrow> pending | Some v \<Rightarrow> v) \<and>
      priority ?t = (case pr of None \<Rightarrow> medium | Some v \<Rightarrow> v) \<and>
      project ?t = (if truthy pj then pj else None) \<and>
      conversation ?t = (if truthy cv then cv else None)"
    by (simp add: createTodo_ts_def Let_def)
  ultimately show ?thesis by (simp add: createTask_ts_def)
qed

text \<open>
  A store with one record, and a \<^verbatim>\<open>createTask\<close> whose draws give that record's identifier
  again: \<^verbatim>\<open>getTodoById\<close> on the returned identifier reads back the old record, not the
  created one.
\<close>

theorem createTask_collision_counterexample:
  "distinct (map id'
     (getAllTodos
        [(''default.json'',
          Json [\<lparr> id' = ''77777777-7777-4777-b777-777777777777'', content = ''old'',
                   status = completed, priority = low, project = None, conversation = None,
                   createdAt = ''2024-01-01T00:00:00.000Z'',
                   updatedAt = ''2024-01-01T00:00:00.000Z'' \<rparr>])])) \<and>
   fst (createTask
        [(''default.json'',
          Json [\<lparr> id' = ''77777777-7777-4777-b777-777777777777'', content = ''old'',
                   status = completed, priority = low, project = None, conversation = None,
                   createdAt = ''2024-01-01T00:00:00.000Z'',
                   updatedAt = ''2024-01-01T00:00:00.000Z'' \<rparr>])]
        (\<lambda>n. 7) ''2024-03-01T00:00:00.000Z'' ''2024-03-01T00:00:00.000Z''
        ''new'' None None None None) =
     \<lparr> id' = ''77777777-7777-4777-b777-777777777777'', content = ''new'',
       status = pending, priority = medium, project = None, conversation = None,
       createdAt = ''2024-03-01T00:00:00.000Z'', updatedAt = ''2024-03-01T00:00:00.000Z'' \<rparr> \<and>
   getTodoById
     (snd (createTask
        [(''default.json'',
          Json [\<lparr> id' = ''77777777-7777-4777-b777-777777777777'', content = ''old'',
                   status = completed, priority = low, project = None, conversation = None,
                   createdAt = ''2024-01-01T00:00:00.000Z'',
                   updatedAt = ''2024-01-01T00:00:00.000Z'' \<rparr>])]
        (\<lambda>n. 7) ''2024-03-01T00:00:00.000Z'' ''2024-03-01T00:00:00.000Z''
        ''new'' None None None None))
     ''77777777-7777-4777-b777-777777777777'' =
     Some \<lparr> id' = ''77777777-7777-4777-b777-777777777777'', content = ''old'',
            status = completed, priority = low, project = None, conversation = None,
            createdAt = ''2024-01-01T00:00:00.000Z'',
            updatedAt = ''2024-01-01T00:00:00.000Z'' \<rparr>"
proof -
  have u: "generateUUID (\<lambda>n. 7) = ''77777777-7777-4777-b777-777777777777''"
    by (simp add: generateUUID_unfold toString16_def)
  show ?thesis
    by (simp add: createTask_def createTodo_def Let_def u createTodo_filePath_def truthy_def
        DEFAULT_TODOS_FILE_def writeTodosFile_update scan_defs)
qed

text \<open>
  C5, as the code has it. When the identifier drawn for the new record is not yet in the
  store, \<^verbatim>\<open>createTask\<close> followed by \<^verbatim>\<open>getTodoById\<close> on the returned identifier reads back the
  created record itself, so all its fields; the content of that record is the one supplied,
  and its status and priority are the ones supplied or else \<^verbatim>\<open>pending\<close> and \<^verbatim>\<open>medium\<close>. With
  the JavaScript \<^verbatim>\<open>createTodo\<close> project and conversation are the ones supplied; with the
  TypeScript one they are the ones supplied when those are not empty, and absent otherwise.
\<close>

theorem createTask_getTodoById_roundtrip:
  "generateUUID rnd \<notin> id' ` set (getAllTodos s) \<Longrightarrow>
     getTodoById (snd (createTask s rnd now1 now2 c st pr pj cv))
       (id' (fst (createTask s rnd now1 now2 c st pr pj cv))) =
       Some (fst (createTask s rnd now1 now2 c st pr pj cv)) \<and>
     content (fst (createTask s rnd now1 now2 c st pr pj cv)) = c \<and>
     status (fst (createTask s rnd now1 now2 c st pr pj cv)) =
       (case st of None \<Rightarrow> pending | Some v \<Rightarrow> v) \<and>
     priority (fst (createTask s rnd now1 now2 c st pr pj cv)) =
       (case pr of None \<Rightarrow> medium | Some v \<Rightarrow> v) \<and>
     project (fst (createTask s rnd now1 now2 c st pr pj cv)) = pj \<and>
     conversation (fst (createTask s rnd now1 now2 c st pr pj cv)) = cv \<and>
     getTodoById (snd (createTask_ts s rnd now1 now2 c st pr pj cv))
       (id' (fst (createTask_ts s rnd now1 now2 c st pr pj cv))) =
       Some (fst (createTask_ts s rnd now1 now2 c st pr pj cv)) \<and>
     content (fst (createTask_ts s rnd now1 now2 c st pr pj cv)) = c \<and>
     status (fst (createTask_ts s rnd now1 now2 c st pr pj cv)) =
       (case st of None \<Rightarrow> pending | Some v \<Rightarrow> v) \<and>
     priority (fst (createTask_ts s rnd now1 now2 c st pr pj cv)) =
       (case pr of None \<Rightarrow> medium | Some v \<Rightarrow> v) \<and>
     project (fst (createTask_ts s rnd now1 now2 c st pr pj cv)) =
       (if truthy pj then pj else None) \<and>
     conversation (fst (createTask_ts s rnd now1 now2 c st pr pj cv)) =
       (if truthy cv then cv else None)"
  using createTask_roundtrip [of rnd s now1 now2 c st pr pj cv]
    createTask_ts_roundtrip [of rnd s now1 now2 c st pr pj cv]
  by blast

theorem createTask_getTodoById_roundtrip_witness:
  "generateUUID (\<lambda>n. 7) \<notin> id' ` set (getAllTodos example_dir) \<and>
   getTodoById
     (snd (createTask example_dir (\<lambda>n. 7) ''2024-03-01T00:00:00.000Z'' ''2024-03-01T00:00:00.001Z''
             ''x'' None None (Some ''My Project!'') None))
     ''77777777-7777-4777-b777-777777777777'' =
     Some \<lparr> id' = ''77777777-7777-4777-b777-777777777777'', content = ''x'', status = pending,
            priority = medium, project = Some ''My Project!'', conversation = None,
            createdAt = ''2024-03-01T00:00:00.000Z'', updatedAt = ''2024-03-01T00:00:00.001Z'' \<rparr>"
proof -
  have u: "generateUUID (\<lambda>n. 7) = ''77777777-7777-4777-b777-777777777777''"
    by (simp add: generateUUID_unfold toString16_def)
  have fresh: "generateUUID (\<lambda>n. 7) \<notin> id' ` set (getAllTodos example_dir)"
    by (simp add: u example_defs scan_defs)
  have "fst (createTask example_dir (\<lambda>n. 7) ''2024-03-01T00:00:00.000Z''
               ''2024-03-01T00:00:00.001Z'' ''x'' None None (Some ''My Project!'') None) =
        \<lparr> id' = ''77777777-7777-4777-b777-777777777777'', content = ''x'', status = pending,
          priority = medium, project = Some ''My Project!'', conversation = None,
          createdAt = ''2024-03-01T00:00:00.000Z'', updatedAt = ''2024-03-01T00:00:00.001Z'' \<rparr>"
    by (simp add: createTask_def createTodo_def Let_def u)
  with createTask_getTodoById_roundtrip
         [OF fresh, of "''2024-03-01T00:00:00.000Z''" "''2024-03-01T00:00:00.001Z''" "''x''"
             None None "Some ''My Project!''" None]
       fresh
  show ?thesis by simp
qed

subsection \<open>No validation of the content\<close>

lemma createTodo_fst_indep:
  "fst (createTodo s rnd now1 now2 d) = fst (createTodo s' rnd now1 now2 d)"
  by (simp add: createTodo_def Let_def)

lemma createTodo_appends:
  "readTodosFile (snd (createTodo s rnd now1 now2 d)) =
     (readTodosFile s)(createTodo_filePath (d_project d) :=
        readTodosFile s (createTodo_filePath (d_project d)) @ [fst (createTodo s rnd now1 now2 d)])"
  by (subst createTodo_eq) (simp add: readTodosFile_write)







subsection \<open>Shard routing\<close>

lemma alnum_iff:
  "alnum c \<longleftrightarrow> c \<in> set ''abcdefghijklmnopqrstuvwxyzABCDEFGHIJKLMNOPQRSTUVWXYZ0123456789''"
proof
  assume "c \<in> set ''abcdefghijklmnopqrstuvwxyzABCDEFGHIJKLMNOPQRSTUVWXYZ0123456789''"
  then show "alnum c" by (auto simp: alnum_def)
next
  assume a: "alnum c"
  define n where "n = (of_char c :: nat)"
  have c: "c = char_of n" by (simp add: n_def)
  from a have "n \<in> {97..122} \<or> n \<in> {65..90} \<or> n \<in> {48..57}"
    by (auto simp: alnum_def n_def Let_def)
  then have "n \<in> {97..<123} \<or> n \<in> {65..<91} \<or> n \<in> {48..<58}"
    by (simp only: atLeastLessThan_iff atLeastAtMost_iff) arith
  then have "n \<in> set [97..<123] \<or> n \<in> set [65..<91] \<or> n \<in> set [48..<58]"
    by (simp only: set_upt)
  then have "char_of n \<in> char_of ` set [97..<123] \<or> char_of n \<in> char_of ` set [65..<91] \<or> char_of n \<in> char_of ` set [48..<58]"
    by blast
  moreover have "char_of ` set [97..<123::nat] = set ''abcdefghijklmnopqrstuvwxyz''"
    by code_simp
  moreover have "char_of ` set [65..<91::nat] = set ''ABCDEFGHIJKLMNOPQRSTUVWXYZ''"
    by code_simp
  moreover have "char_of ` set [48..<58::nat] = set ''0123456789''"
    by code_simp
  ultimately have "char_of n \<in> set ''abcdefghijklmnopqrstuvwxyz'' \<union>
      set ''ABCDEFGHIJKLMNOPQRSTUVWXYZ'' \<union> set ''0123456789''"
    by blast
  also have "\<dots> = set (''abcdefghijklmnopqrstuvwxyz'' @ ''ABCDEFGHIJKLMNOPQRSTUVWXYZ'' @ ''0123456789'')"
    by (simp only: set_append Un_assoc)
  finally show "c \<in> set ''abcdefghijklmnopqrstuvwxyzABCDEFGHIJKLMNOPQRSTUVWXYZ0123456789''"
    unfolding c by simp
qed

lemma createTodo_filePath_shardFor: "createTodo_filePath p = shardFor p @ ''.json''"
  by (cases p)
     (simp_all add: createTodo_filePath_def shardFor_def truthy_def DEFAULT_TODOS_FILE_def
        sanitizedProject_def alnum_iff)

text \<open>
  C6. The file \<^verbatim>\<open>createTodo\<close> writes to is a function of the project alone: the file of the
  default shard when the project is absent or the empty string, otherwise the project with
  every character outside \<^verbatim>\<open>[A-Za-z0-9]\<close> replaced by a hyphen, followed by \<^verbatim>\<open>.json\<close>. So two
  creations whose projects have the same shard append their records, one after the other,
  to the same file.
\<close>

theorem createTodo_shard_routing:
  "createTodo_filePath p = shardFor p @ ''.json'' \<and>
   (shardFor (d_project d1) = shardFor (d_project d2) \<longrightarrow>
      readTodosFile (snd (createTodo (snd (createTodo s r1 a1 b1 d1)) r2 a2 b2 d2))
          (shardFor (d_project d1) @ ''.json'') =
        readTodosFile s (shardFor (d_project d1) @ ''.json'') @
          [fst (createTodo s r1 a1 b1 d1),
           fst (createTodo (snd (createTodo s r1 a1 b1 d1)) r2 a2 b2 d2)])"
  by (simp add: createTodo_appends createTodo_filePath_shardFor)

theorem createTodo_shard_routing_witness:
  "shardFor (Some ''My Project!'') = ''My-Project-'' \<and>
   shardFor (Some ''My_Project '') = ''My-Project-'' \<and>
   readTodosFile
     (snd (createTodo
        (snd (createTodo example_dir (\<lambda>n. 7) ''t1'' ''t1''
           \<lparr> d_content = ''x'', d_status = pending, d_priority = medium,
             d_project = Some ''My Project!'', d_conversation = None \<rparr>))
        (\<lambda>n. 9) ''t2'' ''t2''
        \<lparr> d_content = ''y'', d_status = pending, d_priority = medium,
          d_project = Some ''My_Project '', d_conversation = None \<rparr>))
     ''My-Project-.json'' =
     [\<lparr> id' = ''77777777-7777-4777-b777-777777777777'', content = ''x'', status = pending,
        priority = medium, project = Some ''My Project!'', conversation = None,
        createdAt = ''t1'', updatedAt = ''t1'' \<rparr>,
      \<lparr> id' = ''99999999-9999-4999-9999-999999999999'', content = ''y'', status = pending,
        priority = medium, project = Some ''My_Project '', conversation = None,
        createdAt = ''t2'', updatedAt = ''t2'' \<rparr>]"
proof -
  let ?d1 = "\<lparr> d_content = ''x'', d_status = pending, d_priority = medium,
           d_project = Some ''My Project!'', d_conversation = None \<rparr>"
  let ?d2 = "\<lparr> d_content = ''y'', d_status = pending, d_priority = medium,
           d_project = Some ''My_Project '', d_conversation = None \<rparr>"
  let ?s1 = "snd (createTodo example_dir (\<lambda>n. 7) ''t1'' ''t1'' ?d1)"
  have a: "shardFor (Some ''My Project!'') = ''My-Project-''"
    by (simp add: shardFor_def)
  have b: "shardFor (Some ''My_Project '') = ''My-Project-''"
    by (simp add: shardFor_def)
  have e: "readTodosFile example_dir ''My-Project-.json'' = []"
    by (simp add: example_defs readTodosFile_def)
  have u7: "generateUUID (\<lambda>n. 7) = ''77777777-7777-4777-b777-777777777777''"
    by (simp add: generateUUID_unfold toString16_def)
  have u9: "generateUUID (\<lambda>n. 9) = ''99999999-9999-4999-9999-999999999999''"
    by (simp add: generateUUID_unfold toString16_def)
  have t1: "fst (createTodo example_dir (\<lambda>n. 7) ''t1'' ''t1'' ?d1) =
      \<lparr> id' = ''77777777-7777-4777-b777-777777777777'', content = ''x'', status = pending,
        priority = medium, project = Some ''My Project!'', conversation = None,
        createdAt = ''t1'', updatedAt = ''t1'' \<rparr>"
    by (simp add: createTodo_def Let_def u7)
  have t2: "fst (createTodo ?s1 (\<lambda>n. 9) ''t2'' ''t2'' ?d2) =
      \<lparr> id' = ''99999999-9999-4999-9999-999999999999'', content = ''y'', status = pending,
        priority = medium, project = Some ''My_Project '', conversation = None,
        createdAt = ''t2'', updatedAt = ''t2'' \<rparr>"
    by (simp add: createTodo_def Let_def u9)
  have same: "shardFor (d_project ?d1) = shardFor (d_project ?d2)"
    by (simp add: a b)
  from createTodo_shard_routing
         [of "Some ''My Project!''" ?d1 ?d2 example_dir "\<lambda>n. 7" "''t1''" "''t1''"
             "\<lambda>n. 9" "''t2''" "''t2''"]
       same
  have "readTodosFile (snd (createTodo ?s1 (\<lambda>n. 9) ''t2'' ''t2'' ?d2))
          (shardFor (d_project ?d1) @ ''.json'') =
        readTodosFile example_dir (shardFor (d_project ?d1) @ ''.json'') @
          [fst (createTodo example_dir (\<lambda>n. 7) ''t1'' ''t1'' ?d1),
           fst (createTodo ?s1 (\<lambda>n. 9) ''t2'' ''t2'' ?d2)]"
    by blast
  then show ?thesis
    by (simp add: a b e t1 t2)
qed

subsection \<open>Uniqueness of identifiers\<close>

lemma concat_map_upd_notin:
  "f \<notin> set fs \<Longrightarrow> concat (map (R(f := x)) fs) = concat (map R fs)"
  by (induction fs) auto

lemma getAllTodos_after_append:
  assumes names: "distinct (map fst s)" and json: "endsWith f ''.json''"
  shows "\<exists>A B. getAllTodos s = A @ B \<and>
           getAllTodos (writeTodosFile s f (readTodosFile s f @ [t])) = A @ [t] @ B"
proof (cases "f \<in> fst ` set s")
  case True
  let ?R = "readTodosFile s"
  from True json have "f \<in> set (getTodoFiles s)" by (simp add: in_getTodoFiles)
  then obtain pre post where split: "getTodoFiles s = pre @ f # post"
    by (meson split_list)
  from names have "distinct (getTodoFiles s)"
    by (simp add: getTodoFiles_def distinct_map_filter)
  with split have notin: "f \<notin> set pre" "f \<notin> set post" by auto
  have "getAllTodos (writeTodosFile s f (?R f @ [t])) =
      (concat (map ?R pre) @ ?R f) @ [t] @ concat (map ?R post)"
    using True notin
    by (simp add: getAllTodos_concat getTodoFiles_write readTodosFile_write split
        concat_map_upd_notin)
  moreover have "getAllTodos s = (concat (map ?R pre) @ ?R f) @ concat (map ?R post)"
    by (simp add: getAllTodos_concat split)
  ultimately show ?thesis by blast
next
  case False
  let ?R = "readTodosFile s"
  from False have empty: "?R f = []" using readTodosFile_in_dir [of s f] by blast
  from False have notin: "f \<notin> set (getTodoFiles s)" by (simp add: in_getTodoFiles)
  have "getAllTodos (writeTodosFile s f (?R f @ [t])) = getAllTodos s @ [t] @ []"
    using False json notin empty
    by (simp add: getAllTodos_concat getTodoFiles_write readTodosFile_write concat_map_upd_notin)
  then show ?thesis by (metis append_Nil2)
qed

lemma writeTodosFile_names: "distinct (map fst s) \<Longrightarrow> distinct (map fst (writeTodosFile s f ts))"
  by (simp add: writeTodosFile_update AList.distinct_update)

lemma createTask_eq:
  "createTask s rnd now1 now2 c st pr pj cv =
     (fst (createTask s rnd now1 now2 c st pr pj cv),
      writeTodosFile s (createTodo_filePath pj)
        (readTodosFile s (createTodo_filePath pj) @ [fst (createTask s rnd now1 now2 c st pr pj cv)]))"
  unfolding createTask_def by (subst createTodo_eq) simp

lemma createTask_id: "id' (fst (createTask s rnd now1 now2 c st pr pj cv)) = generateUUID rnd"
  by (simp add: createTask_def createTodo_id)

lemma createTask_step:
  assumes names: "distinct (map fst s)"
  shows "distinct (map fst (snd (createTask s rnd now1 now2 c st pr pj cv))) \<and>
         id' ` set (getAllTodos (snd (createTask s rnd now1 now2 c st pr pj cv))) =
           insert (generateUUID rnd) (id' ` set (getAllTodos s)) \<and>
         (distinct (map id' (getAllTodos s)) \<and> generateUUID rnd \<notin> id' ` set (getAllTodos s) \<longrightarrow>
            distinct (map id' (getAllTodos (snd (createTask s rnd now1 now2 c st pr pj cv)))))"
proof -
  let ?t = "fst (createTask s rnd now1 now2 c st pr pj cv)"
  let ?f = "createTodo_filePath pj"
  let ?s' = "writeTodosFile s ?f (readTodosFile s ?f @ [?t])"
  have s': "snd (createTask s rnd now1 now2 c st pr pj cv) = ?s'"
    by (subst createTask_eq) simp
  from getAllTodos_after_append [OF names createTodo_filePath_json, of pj ?t]
  obtain A B where AB: "getAllTodos s = A @ B" "getAllTodos ?s' = A @ [?t] @ B" by blast
  have id: "id' ?t = generateUUID rnd" by (rule createTask_id)
  show ?thesis
    unfolding s' using names id by (auto simp: AB writeTodosFile_names)
qed

lemma createTask_seq_ids:
  "map id' (fst (createTask_seq s cs)) = map (\<lambda>c. generateUUID (c_rnd c)) cs"
  by (induction cs arbitrary: s) (simp_all add: Let_def split_beta createTask_id)

lemma createTask_seq_unique:
  "distinct (map fst s) \<Longrightarrow> distinct (map id' (getAllTodos s)) \<Longrightarrow>
   distinct (map (\<lambda>c. generateUUID (c_rnd c)) cs) \<Longrightarrow>
   \<forall>c\<in>set cs. generateUUID (c_rnd c) \<notin> id' ` set (getAllTodos s) \<Longrightarrow>
     distinct (map id' (getAllTodos (snd (createTask_seq s cs))))"
proof (induction cs arbitrary: s)
  case Nil
  then show ?case by simp
next
  case (Cons c cs)
  let ?s1 = "snd (createTask s (c_rnd c) (c_now1 c) (c_now2 c) (c_content c) (c_status c)
                      (c_priority c) (c_project c) (c_conversation c))"
  note step = createTask_step [OF Cons.prems(1), of "c_rnd c" "c_now1 c" "c_now2 c" "c_content c"
      "c_status c" "c_priority c" "c_project c" "c_conversation c"]
  from step have n1: "distinct (map fst ?s1)" by blast
  from step have ids: "id' ` set (getAllTodos ?s1) =
      insert (generateUUID (c_rnd c)) (id' ` set (getAllTodos s))" by blast
  from step Cons.prems have d1: "distinct (map id' (getAllTodos ?s1))" by simp
  from Cons.prems have d2: "distinct (map (\<lambda>c. generateUUID (c_rnd c)) cs)" by simp
  have fresh: "\<forall>c'\<in>set cs. generateUUID (c_rnd c') \<notin> id' ` set (getAllTodos ?s1)"
  proof
    fix c' assume c': "c' \<in> set cs"
    with Cons.prems(3) have "generateUUID (c_rnd c') \<noteq> generateUUID (c_rnd c)"
      by (metis (mono_tags, lifting) distinct.simps(2) imageI list.simps(9) set_map)
    moreover from c' Cons.prems(4) have "generateUUID (c_rnd c') \<notin> id' ` set (getAllTodos s)"
      by simp
    ultimately show "generateUUID (c_rnd c') \<notin> id' ` set (getAllTodos ?s1)"
      unfolding ids by simp
  qed
  from Cons.IH [OF n1 d1 d2 fresh]
  show ?case by (simp add: Let_def split_beta)
qed

text \<open>
  Two \<^verbatim>\<open>createTask\<close> calls whose 31 draws are the same return records with the same
  identifier.
\<close>

theorem createTask_same_draws_counterexample:
  "\<not> distinct (map id' (fst (createTask_seq []
      [\<lparr> c_rnd = (\<lambda>n. 7), c_now1 = ''2024-03-01T00:00:00.000Z'',
         c_now2 = ''2024-03-01T00:00:00.000Z'', c_content = ''x'', c_status = None,
         c_priority = None, c_project = None, c_conversation = None \<rparr>,
       \<lparr> c_rnd = (\<lambda>n. 7), c_now1 = ''2024-03-02T00:00:00.000Z'',
         c_now2 = ''2024-03-02T00:00:00.000Z'', c_content = ''y'', c_status = None,
         c_priority = None, c_project = Some ''work'', c_conversation = None \<rparr>])))"
  by (simp only: createTask_seq_ids) simp

lemma distinct_map_same_kernel:
  "(\<And>x y. f x = f y \<longleftrightarrow> g x = g y) \<Longrightarrow> distinct (map f xs) = distinct (map g xs)"
  by (simp add: distinct_map inj_on_def)

lemma createTask_seq_distinct_iff:
  "distinct (map id' (fst (createTask_seq s cs))) \<longleftrightarrow>
     distinct (map (\<lambda>c. draws_used (c_rnd c)) cs)"
  unfolding createTask_seq_ids
  by (rule distinct_map_same_kernel) (rule generateUUID_eq_iff)

text \<open>
  C1, as the code has it. Nothing is checked against the store: the identifier of a returned
  record is \<^verbatim>\<open>generateUUID\<close> of the draws of its call. So no two records returned by a
  sequence of \<^verbatim>\<open>createTask\<close> calls share an identifier exactly when no two of the calls
  agree on all the draws that reach the identifier. When that is so, none of the new
  identifiers is in the store already, the identifiers of the store were pairwise distinct
  over all its shard files, and the directory lists each file name once, then the
  identifiers of the store, over all its shard files, are still pairwise distinct afterwards.
\<close>

theorem createTask_ids_distinct_iff_draws:
  "(distinct (map id' (fst (createTask_seq s cs))) \<longleftrightarrow>
      distinct (map (\<lambda>c. draws_used (c_rnd c)) cs)) \<and>
   (distinct (map fst s) \<and> distinct (map id' (getAllTodos s)) \<and>
    distinct (map (\<lambda>c. draws_used (c_rnd c)) cs) \<and>
    (\<forall>c\<in>set cs. generateUUID (c_rnd c) \<notin> id' ` set (getAllTodos s)) \<longrightarrow>
      distinct (map id' (getAllTodos (snd (createTask_seq s cs)))))"
proof -
  have "distinct (map (\<lambda>c. draws_used (c_rnd c)) cs) \<Longrightarrow>
        distinct (map (\<lambda>c. generateUUID (c_rnd c)) cs)"
    using createTask_seq_distinct_iff [of s cs] by (simp add: createTask_seq_ids)
  then show ?thesis
    using createTask_seq_distinct_iff [of s cs] createTask_seq_unique [of s cs] by blast
qed

theorem createTask_ids_distinct_iff_draws_witness:
  "distinct (map fst example_dir) \<and> distinct (map id' (getAllTodos example_dir)) \<and>
   draws_used (\<lambda>n. 7) \<noteq> draws_used (\<lambda>n. 9) \<and>
   generateUUID (\<lambda>n. 7) \<notin> id' ` set (getAllTodos example_dir) \<and>
   generateUUID (\<lambda>n. 9) \<notin> id' ` set (getAllTodos example_dir) \<and>
   distinct (map id' (fst (createTask_seq example_dir
     [\<lparr> c_rnd = (\<lambda>n. 7), c_now1 = ''t1'', c_now2 = ''t1'', c_content = ''x'', c_status = None,
        c_priority = None, c_project = None, c_conversation = None \<rparr>,
      \<lparr> c_rnd = (\<lambda>n. 9), c_now1 = ''t2'', c_now2 = ''t2'', c_content = ''y'', c_status = None,
        c_priority = None, c_project = Some ''work'', c_conversation = None \<rparr>]))) \<and>
   distinct (map id' (getAllTodos (snd (createTask_seq example_dir
     [\<lparr> c_rnd = (\<lambda>n. 7), c_now1 = ''t1'', c_now2 = ''t1'', c_content = ''x'', c_status = None,
        c_priority = None, c_project = None, c_conversation = None \<rparr>,
      \<lparr> c_rnd = (\<lambda>n. 9), c_now1 = ''t2'', c_now2 = ''t2'', c_content = ''y'', c_status = None,
        c_priority = None, c_project = Some ''work'', c_conversation = None \<rparr>]))))"
proof -
  let ?cs = "[\<lparr> c_rnd = (\<lambda>n. 7), c_now1 = ''t1'', c_now2 = ''t1'', c_content = ''x'', c_status = None,
        c_priority = None, c_project = None, c_conversation = None \<rparr>,
      \<lparr> c_rnd = (\<lambda>n. 9), c_now1 = ''t2'', c_now2 = ''t2'', c_content = ''y'', c_status = None,
        c_priority = None, c_project = Some ''work'', c_conversation = None \<rparr>]"
  have u7: "generateUUID (\<lambda>n. 7) = ''77777777-7777-4777-b777-777777777777''"
    by (simp add: generateUUID_unfold toString16_def)
  have u9: "generateUUID (\<lambda>n. 9) = ''99999999-9999-4999-9999-999999999999''"
    by (simp add: generateUUID_unfold toString16_def)
  have h1: "distinct (map fst example_dir)" by (simp add: example_dir_def)
  have h2: "distinct (map id' (getAllTodos example_dir))" by (simp add: example_defs scan_defs)
  have n: "draws_used (\<lambda>n. 7) \<noteq> draws_used (\<lambda>n. 9)" by (simp add: draws_used_unfold)
  have f7: "generateUUID (\<lambda>n. 7) \<notin> id' ` set (getAllTodos example_dir)"
    by (simp add: u7 example_defs scan_defs)
  have f9: "generateUUID (\<lambda>n. 9) \<notin> id' ` set (getAllTodos example_dir)"
    by (simp add: u9 example_defs scan_defs)
  have h3: "distinct (map (\<lambda>c. draws_used (c_rnd c)) ?cs)" using n by simp
  have h4: "\<forall>c\<in>set ?cs. generateUUID (c_rnd c) \<notin> id' ` set (getAllTodos example_dir)"
    using f7 f9 by simp
  from createTask_ids_distinct_iff_draws [of example_dir ?cs] h1 h2 h3 h4
  have "distinct (map id' (fst (createTask_seq example_dir ?cs))) \<and>
        distinct (map id' (getAllTodos (snd (createTask_seq example_dir ?cs))))"
    by blast
  with h1 h2 n f7 f9 show ?thesis by blast
qed

section \<open>Filtering\<close>

lemma take_eq_prefix: "take (length k) s = k \<longleftrightarrow> (\<exists>post. s = k @ post)"
  by (metis append_eq_conv_conj)

lemma includes_str_iff: "includes_str s k \<longleftrightarrow> (\<exists>pre post. s = pre @ k @ post)"
proof (induction s)
  case Nil
  then show ?case by auto
next
  case (Cons c cs)
  have "(\<exists>pre post. c # cs = pre @ k @ post) \<longleftrightarrow>
        (\<exists>post. c # cs = k @ post) \<or> (\<exists>pre post. cs = pre @ k @ post)"
  proof
    assume "\<exists>pre post. c # cs = pre @ k @ post"
    then obtain pre post where e: "c # cs = pre @ k @ post" by blast
    show "(\<exists>post. c # cs = k @ post) \<or> (\<exists>pre post. cs = pre @ k @ post)"
    proof (cases pre)
      case Nil
      with e show ?thesis by auto
    next
      case (Cons a pre')
      with e have "cs = pre' @ k @ post" by simp
      then show ?thesis by blast
    qed
  next
    assume "(\<exists>post. c # cs = k @ post) \<or> (\<exists>pre post. cs = pre @ k @ post)"
    then show "\<exists>pre post. c # cs = pre @ k @ post"
    proof
      assume "\<exists>post. c # cs = k @ post"
      then obtain post where "c # cs = [] @ k @ post" by auto
      then show ?thesis by blast
    next
      assume "\<exists>pre post. cs = pre @ k @ post"
      then obtain pre post where "c # cs = (c # pre) @ k @ post" by auto
      then show ?thesis by blast
    qed
  qed
  with Cons.IH show ?case
    by (simp only: includes_str.simps take_eq_prefix)
qed

lemma includes_str_empty: "includes_str s []"
  by (induction s) simp_all

lemma filterTodos_pred_criteria: "filterTodos_pred filters t = criteria_nonempty filters t"
  by (auto simp: filterTodos_pred_def criteria_nonempty_def truthy_def includes_str_empty
      toLowerCase_def split: option.splits)

lemma criteria_nonempty_as_specified:
  "f_project filters \<noteq> Some [] \<Longrightarrow> f_conversation filters \<noteq> Some [] \<Longrightarrow>
     criteria_nonempty filters t = criteria_as_specified filters t"
  by (auto simp: criteria_nonempty_def criteria_as_specified_def split: option.splits)

text \<open>
  \<^verbatim>\<open>filterTodos\<close> with the empty string as project criterion returns every record, also
  those whose project is not the empty string.
\<close>

theorem filterTodos_empty_project_counterexample:
  "filterTodos example_dir
     \<lparr> f_status = None, f_priority = None, f_project = Some '''', f_conversation = None,
       f_keyword = None \<rparr> = [example_fix_bug, example_write_docs] \<and>
   filter (criteria_as_specified
     \<lparr> f_status = None, f_priority = None, f_project = Some '''', f_conversation = None,
       f_keyword = None \<rparr>) (getAllTodos example_dir) = []"
proof -
  have all: "getAllTodos example_dir = [example_fix_bug, example_write_docs]"
    by (simp add: example_dir_def scan_defs)
  show ?thesis
    by (simp add: filterTodos_def all filterTodos_pred_def criteria_as_specified_def truthy_def
        example_fix_bug_def example_write_docs_def)
qed

text \<open>
  C7, as the code has it. \<^verbatim>\<open>filterTodos\<close> returns, in the order of \<^verbatim>\<open>getAllTodos\<close>, exactly
  the records that meet every criterion: status, priority, project and conversation by
  equality, the keyword by occurring in the content after lowercasing both. An absent
  criterion asks nothing, and neither does a project or conversation criterion that is the
  empty string; when neither of those two is the empty string, this is the conjunction of
  the supplied criteria.
\<close>

theorem filterTodos_conjunction:
  "filterTodos s filters = filter (criteria_nonempty filters) (getAllTodos s) \<and>
   (f_project filters \<noteq> Some [] \<and> f_conversation filters \<noteq> Some [] \<longrightarrow>
      filterTodos s filters = filter (criteria_as_specified filters) (getAllTodos s)) \<and>
   (includes_str (toLowerCase (content t)) (toLowerCase k) \<longleftrightarrow>
      (\<exists>pre post. toLowerCase (content t) = pre @ toLowerCase k @ post))"
proof -
  have a: "filterTodos s filters = filter (criteria_nonempty filters) (getAllTodos s)"
    by (simp add: filterTodos_def filterTodos_pred_criteria [abs_def])
  have "f_project filters \<noteq> Some [] \<and> f_conversation filters \<noteq> Some [] \<longrightarrow>
      criteria_nonempty filters = criteria_as_specified filters"
    by (auto simp: criteria_nonempty_as_specified)
  with a show ?thesis by (auto simp: includes_str_iff)
qed

theorem filterTodos_conjunction_witness:
  "f_project \<lparr> f_status = None, f_priority = None, f_project = None, f_conversation = None,
       f_keyword = Some ''DOC'' \<rparr> \<noteq> Some [] \<and>
   f_conversation \<lparr> f_status = None, f_priority = None, f_project = None, f_conversation = None,
       f_keyword = Some ''DOC'' \<rparr> \<noteq> Some [] \<and>
   filterTodos example_dir
     \<lparr> f_status = None, f_priority = None, f_project = None, f_conversation = None,
       f_keyword = Some ''DOC'' \<rparr> = [example_write_docs] \<and>
   filterTodos example_dir
     \<lparr> f_status = None, f_priority = Some high, f_project = None, f_conversation = None,
       f_keyword = None \<rparr> = [example_fix_bug]"
proof -
  let ?k = "\<lparr> f_status = None, f_priority = None, f_project = None, f_conversation = None,
       f_keyword = Some ''DOC'' \<rparr>"
  let ?p = "\<lparr> f_status = None, f_priority = Some high, f_project = None, f_conversation = None,
       f_keyword = None \<rparr>"
  have all: "getAllTodos example_dir = [example_fix_bug, example_write_docs]"
    by (simp add: example_dir_def scan_defs)
  have lc1: "toLowerCase ''DOC'' = ''doc''" by code_simp
  have lc2: "toLowerCase ''fix bug'' = ''fix bug''" by code_simp
  have lc3: "toLowerCase ''write docs'' = ''write docs''" by code_simp
  note lc = lc1 lc2 lc3
  have k: "filter (criteria_as_specified ?k) [example_fix_bug, example_write_docs] =
      [example_write_docs]"
    by (simp add: criteria_as_specified_def example_fix_bug_def example_write_docs_def lc)
  have p: "filter (criteria_as_specified ?p) [example_fix_bug, example_write_docs] =
      [example_fix_bug]"
    by (simp add: criteria_as_specified_def example_fix_bug_def example_write_docs_def)
  have hk: "f_project ?k \<noteq> Some [] \<and> f_conversation ?k \<noteq> Some []" by simp
  have hp: "f_project ?p \<noteq> Some [] \<and> f_conversation ?p \<noteq> Some []" by simp
  from filterTodos_conjunction [of example_dir ?k] hk
  have "filterTodos example_dir ?k = filter (criteria_as_specified ?k) (getAllTodos example_dir)"
    by blast
  then have rk: "filterTodos example_dir ?k = [example_write_docs]"
    by (simp only: all k)
  from filterTodos_conjunction [of example_dir ?p] hp
  have "filterTodos example_dir ?p = filter (criteria_as_specified ?p) (getAllTodos example_dir)"
    by blast
  then have rp: "filterTodos example_dir ?p = [example_fix_bug]"
    by (simp only: all p)
  from hk rk rp show ?thesis by simp
qed

section \<open>Shard files that do not parse, and how shards are written\<close>

lemma corrupt_reads_empty: "map_of s f = Some Corrupt \<Longrightarrow> readTodosFile s f = []"
  by (simp add: readTodosFile_def)

lemma corrupt_like_empty:
  assumes "map_of s f = Some Corrupt"
  shows "readTodosFile (writeTodosFile s f []) = readTodosFile s"
    and "getTodoFiles (writeTodosFile s f []) = getTodoFiles s"
proof -
  from assms have "readTodosFile s f = []" by (rule corrupt_reads_empty)
  then show "readTodosFile (writeTodosFile s f []) = readTodosFile s"
    by (auto simp: readTodosFile_write)
  from assms have "f \<in> fst ` set s" by (metis map_of_eq_None_iff option.distinct(1))
  then show "getTodoFiles (writeTodosFile s f []) = getTodoFiles s"
    by (simp add: getTodoFiles_write)
qed

lemma getTodoById_loop_cong:
  "readTodosFile s = readTodosFile s' \<Longrightarrow> getTodoById_loop s files i = getTodoById_loop s' files i"
  by (induction files) (auto split: option.splits)

text \<open>
  \<^verbatim>\<open>createTodo\<close> routed to a shard file that does not parse: the write is carried out and
  the file then holds the new record alone.
\<close>

theorem corrupt_shard_write_counterexample:
  "map_of [(''default.json'', Corrupt)] ''default.json'' = Some Corrupt \<and>
   createTodo [(''default.json'', Corrupt)] (\<lambda>n. 7)
     ''2024-03-01T00:00:00.000Z'' ''2024-03-01T00:00:00.000Z''
     \<lparr> d_content = ''x'', d_status = pending, d_priority = medium,
       d_project = None, d_conversation = None \<rparr> =
   (\<lparr> id' = ''77777777-7777-4777-b777-777777777777'', content = ''x'', status = pending,
      priority = medium, project = None, conversation = None,
      createdAt = ''2024-03-01T00:00:00.000Z'', updatedAt = ''2024-03-01T00:00:00.000Z'' \<rparr>,
    [(''default.json'',
      Json [\<lparr> id' = ''77777777-7777-4777-b777-777777777777'', content = ''x'', status = pending,
               priority = medium, project = None, conversation = None,
               createdAt = ''2024-03-01T00:00:00.000Z'',
               updatedAt = ''2024-03-01T00:00:00.000Z'' \<rparr>])])"
  by (simp add: createTodo_def Let_def generateUUID_unfold toString16_def createTodo_filePath_def
      truthy_def DEFAULT_TODOS_FILE_def readTodosFile_def writeTodosFile_update)

text \<open>
  C8, as the code has it. A shard file that does not parse is read as the empty sequence:
  \<^verbatim>\<open>getAllTodos\<close>, \<^verbatim>\<open>getTodoById\<close> and \<^verbatim>\<open>filterTodos\<close> return what they return when that
  shard holds \<^verbatim>\<open>[]\<close>, with no failure in their result. A write to it is not refused:
  \<^verbatim>\<open>createTodo\<close> routed to that shard replaces its content by the new record alone.
\<close>

theorem corrupt_shard_read_as_empty_and_overwritten:
  "map_of s f = Some Corrupt \<Longrightarrow>
     readTodosFile s f = [] \<and>
     getAllTodos s = getAllTodos (writeTodosFile s f []) \<and>
     getTodoById s i = getTodoById (writeTodosFile s f []) i \<and>
     filterTodos s filters = filterTodos (writeTodosFile s f []) filters \<and>
     (createTodo_filePath (d_project d) = f \<longrightarrow>
        map_of (snd (createTodo s rnd now1 now2 d)) f =
          Some (Json [fst (createTodo s rnd now1 now2 d)]))"
proof -
  assume c: "map_of s f = Some Corrupt"
  note e = corrupt_like_empty [OF c]
  have "getAllTodos s = getAllTodos (writeTodosFile s f [])"
    by (simp add: getAllTodos_concat e)
  moreover have "getTodoById s i = getTodoById (writeTodosFile s f []) i"
    by (simp add: getTodoById_def e getTodoById_loop_cong [of "writeTodosFile s f []" s])
  moreover have "createTodo_filePath (d_project d) = f \<longrightarrow>
        map_of (snd (createTodo s rnd now1 now2 d)) f =
          Some (Json [fst (createTodo s rnd now1 now2 d)])"
    using corrupt_reads_empty [OF c]
    by (subst createTodo_eq) (auto simp: writeTodosFile_update AList.update_conv')
  ultimately show ?thesis
    using corrupt_reads_empty [OF c] by (simp add: filterTodos_def)
qed

theorem corrupt_shard_read_as_empty_and_overwritten_witness:
  "map_of [(''default.json'', Corrupt), (''work.json'', Json [example_write_docs])]
     ''default.json'' = Some Corrupt \<and>
   getAllTodos [(''default.json'', Corrupt), (''work.json'', Json [example_write_docs])] =
     [example_write_docs] \<and>
   createTodo_filePath (d_project \<lparr> d_content = ''x'', d_status = pending, d_priority = medium,
       d_project = None, d_conversation = None \<rparr>) = ''default.json'' \<and>
   map_of (snd (createTodo [(''default.json'', Corrupt), (''work.json'', Json [example_write_docs])]
       (\<lambda>n. 7) ''t1'' ''t2''
       \<lparr> d_content = ''x'', d_status = pending, d_priority = medium,
         d_project = None, d_conversation = None \<rparr>)) ''default.json'' =
     Some (Json [\<lparr> id' = ''77777777-7777-4777-b777-777777777777'', content = ''x'',
                   status = pending, priority = medium, project = None, conversation = None,
                   createdAt = ''t1'', updatedAt = ''t2'' \<rparr>])"
proof -
  let ?s = "[(''default.json'', Corrupt), (''work.json'', Json [example_write_docs])]"
  let ?d = "\<lparr> d_content = ''x'', d_status = pending, d_priority = medium,
         d_project = None, d_conversation = None \<rparr>"
  have c: "map_of ?s ''default.json'' = Some Corrupt" by simp
  have p: "createTodo_filePath (d_project ?d) = ''default.json''"
    by (simp add: createTodo_filePath_def truthy_def DEFAULT_TODOS_FILE_def)
  have t: "fst (createTodo ?s (\<lambda>n. 7) ''t1'' ''t2'' ?d) =
      \<lparr> id' = ''77777777-7777-4777-b777-777777777777'', content = ''x'',
        status = pending, priority = medium, project = None, conversation = None,
        createdAt = ''t1'', updatedAt = ''t2'' \<rparr>"
    by (simp add: createTodo_def Let_def generateUUID_unfold toString16_def)
  have g: "getAllTodos (writeTodosFile ?s ''default.json'' []) = [example_write_docs]"
    by (simp add: writeTodosFile_update scan_defs)
  from corrupt_shard_read_as_empty_and_overwritten
         [OF c, of "[]" _ ?d "\<lambda>n. 7" "''t1''" "''t2''"]
  show ?thesis using c p by (simp only: t g)
qed

text \<open>
  \<^verbatim>\<open>writeTodosFile\<close> on \<^verbatim>\<open>default.json\<close>: one \<^verbatim>\<open>fs.writeFile\<close> on that path itself.
\<close>

theorem writeTodosFile_no_rename_counterexample:
  "writeTodosFile_calls ''default.json'' [example_fix_bug] =
     [WriteFile ''default.json'' (Json [example_fix_bug])]"
  by (simp add: writeTodosFile_calls_def)

text \<open>
  C9, as the code has it. A shard write is a single \<^verbatim>\<open>fs.writeFile\<close> call on the path of the
  shard itself, with no temporary file and no rename. Once it has returned, the shard holds
  exactly the records written, whatever it held before, and every other file is unchanged.
\<close>

theorem writeTodosFile_in_place:
  "writeTodosFile_calls f ts = [WriteFile f (Json ts)] \<and>
   map_of (writeTodosFile s f ts) f = Some (Json ts) \<and>
   readTodosFile (writeTodosFile s f ts) f = ts \<and>
   (\<forall>g. g \<noteq> f \<longrightarrow> map_of (writeTodosFile s f ts) g = map_of s g)"
  by (simp add: writeTodosFile_calls_def writeTodosFile_update AList.update_conv' readTodosFile_def)

theorem writeTodosFile_in_place_witness:
  "''work.json'' \<noteq> ''default.json'' \<and>
   writeTodosFile_calls ''default.json'' [] = [WriteFile ''default.json'' (Json [])] \<and>
   map_of (writeTodosFile example_dir ''default.json'' []) ''default.json'' = Some (Json []) \<and>
   map_of (writeTodosFile example_dir ''default.json'' []) ''work.json'' =
     Some (Json [example_write_docs])"
proof -
  have n: "''work.json'' \<noteq> ''default.json''" by simp
  have "map_of example_dir ''work.json'' = Some (Json [example_write_docs])"
    by (simp add: example_dir_def)
  with writeTodosFile_in_place [of "''default.json''" "[]" example_dir] n
  show ?thesis by simp
qed

end
